theory Spec2Isabelle
  imports Main
begin

section \<open>The relational schema (shared/schema.ts)\<close>

text \<open>
  Every table of the schema is a list of rows, in insertion order. Identifiers are
  \<open>varchar\<close> strings, timestamps are points on a discrete clock. A nullable column is an
  \<open>option\<close>; a column declared \<open>notNull()\<close> is a plain value. Record fields carry a table
  prefix where two tables share a column name (\<open>id\<close>, \<open>name\<close>, \<open>createdAt\<close>).
\<close>

type_synonym varchar = string
type_synonym timestamp = nat

record user =
  user_id :: varchar
  username :: string
  password :: string
  email :: string
  fullName :: string
  role :: string
  user_createdAt :: timestamp

record category =
  cat_id :: varchar
  cat_name :: string
  cat_description :: "string option"
  cat_color :: string
  cat_createdAt :: timestamp

record tag =
  tag_id :: varchar
  tag_name :: string
  tag_createdAt :: timestamp

record article =
  art_id :: varchar
  title :: string
  content :: string
  excerpt :: "string option"
  coverImage :: "string option"
  status :: string
  categoryId :: "varchar option"
  authorId :: varchar
  views :: int
  createdAt :: timestamp
  updatedAt :: timestamp
  publishedAt :: "timestamp option"

record articleTag =
  at_id :: varchar
  at_articleId :: varchar
  at_tagId :: varchar

record db =
  users :: "user list"
  categories :: "category list"
  tags :: "tag list"
  articles :: "article list"
  articleTags :: "articleTag list"

definition emptyDb :: db where
  "emptyDb = \<lparr>users = [], categories = [], tags = [], articles = [], articleTags = []\<rparr>"

text \<open>
  The insert types inferred from the zod schemas. \<open>InsertArticle\<close> has \<open>title\<close>,
  \<open>content\<close> and \<open>authorId\<close> required, \<open>status\<close> optional (the column has a default) and
  the three nullable columns optional and nullable: \<open>None\<close> is an absent key
  (\<open>undefined\<close>), \<open>Some None\<close> is \<open>null\<close>. The \<open>tagIds\<close> key of the schema is not a
  column of the table; the query builder reads only the table's columns, so it is left
  out of the records. \<open>Partial<InsertArticle>\<close> makes every key optional.
\<close>

record insertArticle =
  ins_title :: string
  ins_content :: string
  ins_excerpt :: "string option option"
  ins_coverImage :: "string option option"
  ins_status :: "string option"
  ins_categoryId :: "varchar option option"
  ins_authorId :: varchar

record partialInsertArticle =
  upd_title :: "string option"
  upd_content :: "string option"
  upd_excerpt :: "string option option"
  upd_coverImage :: "string option option"
  upd_status :: "string option"
  upd_categoryId :: "varchar option option"
  upd_authorId :: "varchar option"

record insertUser =
  iu_username :: string
  iu_password :: string
  iu_email :: string
  iu_fullName :: string
  iu_role :: "string option"

record insertCategory =
  ic_name :: string
  ic_description :: "string option option"
  ic_color :: "string option"

record insertTag =
  it_name :: string

section \<open>JSON values\<close>

text \<open>
  What \<open>JSON.parse\<close> yields for a request body and what \<open>res.json\<close> sends. An object is
  the list of its keys with their values, in order; its keys are pairwise different, and a
  key an object does not have is simply not in the list. \<open>JNum\<close> is a number that is an
  integer, \<open>JFrac\<close> any other number (its value plays no part). A string is a text the
  database can store. Timestamps in responses are written as numbers (the server writes
  ISO strings).
\<close>

datatype json =
  JNull
  | JBool bool
  | JStr string
  | JNum int
  | JFrac
  | JArr "json list"
  | JObj "(string \<times> json) list"

section \<open>What a call can throw\<close>

text \<open>
  A statement the database rejects throws in the server. The constraints are the ones the
  schema declares: primary keys and \<open>unique()\<close> columns, \<open>notNull()\<close>, the \<open>references\<close>
  foreign keys, and the range of the 32-bit \<open>integer\<close> column \<open>views\<close>; a parameter the
  database cannot read as an integer is rejected as well. \<open>parse\<close> throws a \<open>ZodError\<close>
  with one issue per violated key, and the query builder throws a \<open>TypeError\<close> when it
  cannot encode a value.
\<close>

datatype storeError =
  UniqueViolation
  | ForeignKeyViolation
  | NotNullViolation
  | NumericValueOutOfRange
  | InvalidTextRepresentation

record zodIssue =
  issuePath :: string
  issueMessage :: string

datatype thrown = ZodError "zodIssue list" | StoreError storeError | TypeError

definition INT4_MAX :: int where
  "INT4_MAX = 2147483647"

definition INT4_MIN :: int where
  "INT4_MIN = - 2147483648"

section \<open>The environment of one call\<close>

text \<open>
  What a call reads from outside the tables: \<open>clock\<close> is the value of \<open>new Date()\<close> in
  the server process (the two \<open>new Date()\<close> of one \<open>updateArticle\<close> call are taken as
  the same instant), \<open>dbNow\<close> is the database's \<open>now()\<close> used by the column defaults,
  \<open>uuid k\<close> is the \<open>k\<close>-th value \<open>gen_random_uuid()\<close> yields during the call,
  \<open>bcryptHash\<close> is \<open>bcrypt.hash(_, 10)\<close> and \<open>isEmail\<close> is zod's \<open>.email()\<close> test.
  Four more are left open: \<open>errorText\<close> is the \<open>message\<close> of a thrown error (zod's
  dump of its issues, the database's text), \<open>driverText\<close> is the text the database
  driver sends for a parameter that is neither a string nor \<open>null\<close>, \<open>int4In\<close> is the
  database's reading of a text as an \<open>integer\<close> (\<open>None\<close> when it rejects the text),
  and \<open>jsPositive v\<close> is JavaScript's \<open>v > 0\<close> for a value that has to be converted to
  a number first (a string, a fraction, an array, an object).
\<close>

record env =
  clock :: timestamp
  dbNow :: timestamp
  uuid :: "nat \<Rightarrow> varchar"
  bcryptHash :: "string \<Rightarrow> string"
  isEmail :: "string \<Rightarrow> bool"
  errorText :: "thrown \<Rightarrow> string"
  driverText :: "json \<Rightarrow> string"
  int4In :: "string \<Rightarrow> int option"
  jsPositive :: "json \<Rightarrow> bool"

section \<open>Single statements issued through the query builder\<close>

definition orNull :: "'a option option \<Rightarrow> 'a option" where
  "orNull v = (case v of None \<Rightarrow> None | Some x \<Rightarrow> x)"

definition orDefault :: "'a option \<Rightarrow> 'a \<Rightarrow> 'a" where
  "orDefault v dflt = (case v of None \<Rightarrow> dflt | Some x \<Rightarrow> x)"

text \<open>\<open>.set({...})\<close> skips every key whose value is \<open>undefined\<close>: the column keeps its value.\<close>

definition setOr :: "'a option \<Rightarrow> 'a \<Rightarrow> 'a" where
  "setOr v old = (case v of None \<Rightarrow> old | Some x \<Rightarrow> x)"

definition userIds :: "db \<Rightarrow> varchar list" where
  "userIds d = map user_id (users d)"

definition categoryIds :: "db \<Rightarrow> varchar list" where
  "categoryIds d = map cat_id (categories d)"

definition tagIdsOf :: "db \<Rightarrow> varchar list" where
  "tagIdsOf d = map tag_id (tags d)"

definition articleIds :: "db \<Rightarrow> varchar list" where
  "articleIds d = map art_id (articles d)"

definition categoryMissing :: "db \<Rightarrow> varchar option \<Rightarrow> bool" where
  "categoryMissing d c = (case c of None \<Rightarrow> False | Some x \<Rightarrow> x \<notin> set (categoryIds d))"

text \<open>
  \<open>db.insert(articles).values({...insertArticle, publishedAt}).returning()\<close>: the row
  gets a fresh id, \<open>views = 0\<close>, \<open>status\<close> defaulting to draft and both timestamps from
  \<open>now()\<close>; the second argument is the \<open>publishedAt\<close> the caller computed.
\<close>

definition newArticleRow :: "env \<Rightarrow> insertArticle \<Rightarrow> timestamp option \<Rightarrow> article" where
  "newArticleRow e v pub =
     \<lparr>art_id = uuid e 0,
      title = ins_title v,
      content = ins_content v,
      excerpt = orNull (ins_excerpt v),
      coverImage = orNull (ins_coverImage v),
      status = orDefault (ins_status v) ''draft'',
      categoryId = orNull (ins_categoryId v),
      authorId = ins_authorId v,
      views = 0,
      createdAt = dbNow e,
      updatedAt = dbNow e,
      publishedAt = pub\<rparr>"

definition insertArticleRow ::
  "env \<Rightarrow> insertArticle \<Rightarrow> timestamp option \<Rightarrow> db \<Rightarrow> storeError + (article \<times> db)" where
  "insertArticleRow e v pub d =
     (let row = newArticleRow e v pub in
      if art_id row \<in> set (articleIds d) then Inl UniqueViolation
      else if authorId row \<notin> set (userIds d) then Inl ForeignKeyViolation
      else if categoryMissing d (categoryId row) then Inl ForeignKeyViolation
      else Inr (row, d\<lparr>articles := articles d @ [row]\<rparr>))"

text \<open>
  \<open>db.insert(articleTags).values([...])\<close>: one statement for all rows, so either every
  row is stored or none. The rows take the identifiers \<open>uuid e k0\<close>, \<open>uuid e (k0 + 1)\<close>,
  and so on, in the order of the list.
\<close>

definition newArticleTagRows :: "env \<Rightarrow> nat \<Rightarrow> (varchar \<times> varchar) list \<Rightarrow> articleTag list" where
  "newArticleTagRows e k0 vals =
     map (\<lambda>(k, (a, t)). \<lparr>at_id = uuid e k, at_articleId = a, at_tagId = t\<rparr>)
       (enumerate k0 vals)"

definition insertArticleTags ::
  "env \<Rightarrow> nat \<Rightarrow> (varchar \<times> varchar) list \<Rightarrow> db \<Rightarrow> storeError + db" where
  "insertArticleTags e k0 vals d =
     (let rows = newArticleTagRows e k0 vals in
      if \<not> distinct (map at_id rows)
         \<or> (\<exists>r \<in> set rows. at_id r \<in> set (map at_id (articleTags d)))
      then Inl UniqueViolation
      else if \<exists>r \<in> set rows. at_articleId r \<notin> set (articleIds d)
      then Inl ForeignKeyViolation
      else if \<exists>r \<in> set rows. at_tagId r \<notin> set (tagIdsOf d)
      then Inl ForeignKeyViolation
      else Inr (d\<lparr>articleTags := articleTags d @ rows\<rparr>))"

text \<open>
  \<open>db.update(articles).set({...}).where(eq(articles.id, id)).returning()\<close>. The keys of
  \<open>updateData\<close> that are present overwrite their columns, \<open>updatedAt\<close> is always written,
  and \<open>publishedAt\<close> is written only when the caller passes a value (the key is
  \<open>undefined\<close> otherwise and is skipped). Both keys are written after the spread of
  \<open>updateData\<close>, so they win over a key of the same name inside it. The foreign keys are
  checked for the rows the statement changes, so a statement that matches no row is never
  rejected.
\<close>

definition setArticle :: "env \<Rightarrow> partialInsertArticle \<Rightarrow> timestamp option \<Rightarrow> article \<Rightarrow> article" where
  "setArticle e u pub a =
     a\<lparr>title := setOr (upd_title u) (title a),
       content := setOr (upd_content u) (content a),
       excerpt := setOr (upd_excerpt u) (excerpt a),
       coverImage := setOr (upd_coverImage u) (coverImage a),
       status := setOr (upd_status u) (status a),
       categoryId := setOr (upd_categoryId u) (categoryId a),
       authorId := setOr (upd_authorId u) (authorId a),
       updatedAt := clock e,
       publishedAt := (case pub of None \<Rightarrow> publishedAt a | Some t \<Rightarrow> Some t)\<rparr>"

definition updateRejected :: "partialInsertArticle \<Rightarrow> db \<Rightarrow> bool" where
  "updateRejected u d =
     ((case upd_authorId u of None \<Rightarrow> False | Some x \<Rightarrow> x \<notin> set (userIds d))
      \<or> (case upd_categoryId u of None \<Rightarrow> False | Some c \<Rightarrow> categoryMissing d c))"

definition updateArticleRow ::
  "env \<Rightarrow> varchar \<Rightarrow> partialInsertArticle \<Rightarrow> timestamp option \<Rightarrow> db
     \<Rightarrow> storeError + (article list \<times> db)" where
  "updateArticleRow e i u pub d =
     (let matched = filter (\<lambda>a. art_id a = i) (articles d) in
      if matched \<noteq> [] \<and> updateRejected u d then Inl ForeignKeyViolation
      else Inr (map (setArticle e u pub) matched,
                d\<lparr>articles := map (\<lambda>a. if art_id a = i then setArticle e u pub a else a)
                                 (articles d)\<rparr>))"

text \<open>\<open>db.delete(articleTags).where(eq(articleTags.articleId, id))\<close>.\<close>

definition deleteArticleTagsOf :: "varchar \<Rightarrow> db \<Rightarrow> db" where
  "deleteArticleTagsOf i d = d\<lparr>articleTags := filter (\<lambda>r. at_articleId r \<noteq> i) (articleTags d)\<rparr>"

section \<open>DatabaseStorage (server/storage.ts): articles\<close>

text \<open>
  Each method returns its outcome together with the tables as the call leaves them. The
  statements of one method are not wrapped in a transaction, so a method that throws at
  its second or third statement keeps the effect of the earlier ones.
\<close>

definition createArticle ::
  "env \<Rightarrow> insertArticle \<Rightarrow> varchar list option \<Rightarrow> db \<Rightarrow> (storeError + article) \<times> db" where
  "createArticle e insertArticle tagIds d =
     (case insertArticleRow e insertArticle
             (if ins_status insertArticle = Some ''published'' then Some (clock e) else None) d of
        Inl err \<Rightarrow> (Inl err, d)
      | Inr (article, d1) \<Rightarrow>
          (case tagIds of
             None \<Rightarrow> (Inr article, d1)
           | Some ts \<Rightarrow>
               if length ts > 0 then
                 (case insertArticleTags e 1 (map (\<lambda>tagId. (art_id article, tagId)) ts) d1 of
                    Inl err \<Rightarrow> (Inl err, d1)
                  | Inr d2 \<Rightarrow> (Inr article, d2))
               else (Inr article, d1)))"

text \<open>
  \<open>const [article] = ...\<close> takes the first updated row, \<open>undefined\<close> (\<open>None\<close>) when the
  statement matched none.
\<close>

definition updateArticle ::
  "env \<Rightarrow> varchar \<Rightarrow> partialInsertArticle \<Rightarrow> varchar list option \<Rightarrow> db
     \<Rightarrow> (storeError + article option) \<times> db" where
  "updateArticle e i updateData tagIds d =
     (case updateArticleRow e i updateData
             (if upd_status updateData = Some ''published'' then Some (clock e) else None) d of
        Inl err \<Rightarrow> (Inl err, d)
      | Inr (rows, d1) \<Rightarrow>
          (let article = (case rows of [] \<Rightarrow> None | a # _ \<Rightarrow> Some a) in
           case tagIds of
             None \<Rightarrow> (Inr article, d1)
           | Some ts \<Rightarrow>
               (let d2 = deleteArticleTagsOf i d1 in
                if length ts > 0 then
                  (case insertArticleTags e 0 (map (\<lambda>tagId. (i, tagId)) ts) d2 of
                     Inl err \<Rightarrow> (Inl err, d2)
                   | Inr d3 \<Rightarrow> (Inr article, d3))
                else (Inr article, d2))))"

text \<open>\<open>deleteArticle\<close>: the \<open>onDelete: "cascade"\<close> of \<open>article_tags.article_id\<close> removes the links.\<close>

definition deleteArticle :: "varchar \<Rightarrow> db \<Rightarrow> db" where
  "deleteArticle i d =
     d\<lparr>articles := filter (\<lambda>a. art_id a \<noteq> i) (articles d),
       articleTags := filter (\<lambda>r. at_articleId r \<noteq> i) (articleTags d)\<rparr>"

text \<open>
  \<open>.set({ views: sql`${articles.views} + 1` })\<close>: the database computes the sum on the
  stored value, and rejects the statement when the result leaves the \<open>integer\<close> range.
\<close>

definition incrementArticleViews :: "varchar \<Rightarrow> db \<Rightarrow> (storeError + unit) \<times> db" where
  "incrementArticleViews i d =
     (if \<exists>a \<in> set (articles d). art_id a = i \<and> views a + 1 > INT4_MAX
      then (Inl NumericValueOutOfRange, d)
      else (Inr (),
            d\<lparr>articles := map (\<lambda>a. if art_id a = i then a\<lparr>views := views a + 1\<rparr> else a)
                             (articles d)\<rparr>))"

section \<open>DatabaseStorage: users, categories, tags\<close>

text \<open>
  The lookups destructure the first row of the result (\<open>const [user] = ...\<close>) and return
  \<open>undefined\<close> when there is none.
\<close>

definition firstRow :: "'a list \<Rightarrow> 'a option" where
  "firstRow rows = (case rows of [] \<Rightarrow> None | r # _ \<Rightarrow> Some r)"

definition getUser :: "varchar \<Rightarrow> db \<Rightarrow> user option" where
  "getUser i d = firstRow (filter (\<lambda>u. user_id u = i) (users d))"

definition getUserByUsername :: "string \<Rightarrow> db \<Rightarrow> user option" where
  "getUserByUsername n d = firstRow (filter (\<lambda>u. username u = n) (users d))"

definition getUserByEmail :: "string \<Rightarrow> db \<Rightarrow> user option" where
  "getUserByEmail m d = firstRow (filter (\<lambda>u. email u = m) (users d))"

text \<open>
  \<open>createUser\<close>: one insert; \<open>username\<close> and \<open>email\<close> are \<open>unique()\<close>, \<open>role\<close> defaults to
  \<open>employee\<close>.
\<close>

definition newUserRow :: "env \<Rightarrow> insertUser \<Rightarrow> user" where
  "newUserRow e v =
     \<lparr>user_id = uuid e 0,
      username = iu_username v,
      password = iu_password v,
      email = iu_email v,
      fullName = iu_fullName v,
      role = orDefault (iu_role v) ''employee'',
      user_createdAt = dbNow e\<rparr>"

definition createUser :: "env \<Rightarrow> insertUser \<Rightarrow> db \<Rightarrow> (storeError + user) \<times> db" where
  "createUser e insertUser d =
     (let row = newUserRow e insertUser in
      if user_id row \<in> set (userIds d)
         \<or> username row \<in> set (map username (users d))
         \<or> email row \<in> set (map email (users d))
      then (Inl UniqueViolation, d)
      else (Inr row, d\<lparr>users := users d @ [row]\<rparr>))"

text \<open>
  \<open>orderBy(desc(users.createdAt))\<close>: newest first. SQL leaves the order among equal
  timestamps to the database; such rows are kept in the order of the table here (the sort
  is stable).
\<close>

definition getAllUsers :: "db \<Rightarrow> user list" where
  "getAllUsers d = sort_key (\<lambda>u. - int (user_createdAt u)) (users d)"

text \<open>
  \<open>articles.author_id\<close> references \<open>users.id\<close> without an \<open>onDelete\<close> action, so a user
  that still authors an article cannot be deleted; the same holds for a category.
\<close>

definition deleteUser :: "varchar \<Rightarrow> db \<Rightarrow> (storeError + unit) \<times> db" where
  "deleteUser i d =
     (if i \<in> set (userIds d) \<and> i \<in> set (map authorId (articles d))
      then (Inl ForeignKeyViolation, d)
      else (Inr (), d\<lparr>users := filter (\<lambda>u. user_id u \<noteq> i) (users d)\<rparr>))"

definition newCategoryRow :: "env \<Rightarrow> insertCategory \<Rightarrow> category" where
  "newCategoryRow e v =
     \<lparr>cat_id = uuid e 0,
      cat_name = ic_name v,
      cat_description = orNull (ic_description v),
      cat_color = orDefault (ic_color v) ''#3b82f6'',
      cat_createdAt = dbNow e\<rparr>"

definition createCategory ::
  "env \<Rightarrow> insertCategory \<Rightarrow> db \<Rightarrow> (storeError + category) \<times> db" where
  "createCategory e insertCategory d =
     (let row = newCategoryRow e insertCategory in
      if cat_id row \<in> set (categoryIds d) \<or> cat_name row \<in> set (map cat_name (categories d))
      then (Inl UniqueViolation, d)
      else (Inr row, d\<lparr>categories := categories d @ [row]\<rparr>))"

definition deleteCategory :: "varchar \<Rightarrow> db \<Rightarrow> (storeError + unit) \<times> db" where
  "deleteCategory i d =
     (if i \<in> set (categoryIds d) \<and> Some i \<in> set (map categoryId (articles d))
      then (Inl ForeignKeyViolation, d)
      else (Inr (), d\<lparr>categories := filter (\<lambda>c. cat_id c \<noteq> i) (categories d)\<rparr>))"

definition newTagRow :: "env \<Rightarrow> insertTag \<Rightarrow> tag" where
  "newTagRow e v = \<lparr>tag_id = uuid e 0, tag_name = it_name v, tag_createdAt = dbNow e\<rparr>"

definition createTag :: "env \<Rightarrow> insertTag \<Rightarrow> db \<Rightarrow> (storeError + tag) \<times> db" where
  "createTag e insertTag d =
     (let row = newTagRow e insertTag in
      if tag_id row \<in> set (tagIdsOf d) \<or> tag_name row \<in> set (map tag_name (tags d))
      then (Inl UniqueViolation, d)
      else (Inr row, d\<lparr>tags := tags d @ [row]\<rparr>))"

text \<open>\<open>deleteTag\<close>: \<open>article_tags.tag_id\<close> cascades, so the links of the tag go with it.\<close>

definition deleteTag :: "varchar \<Rightarrow> db \<Rightarrow> db" where
  "deleteTag i d =
     d\<lparr>tags := filter (\<lambda>t. tag_id t \<noteq> i) (tags d),
       articleTags := filter (\<lambda>r. at_tagId r \<noteq> i) (articleTags d)\<rparr>"

section \<open>DatabaseStorage: articles with their relations\<close>

text \<open>
  \<open>db.query.articles.findMany({ with: { author: true, category: true, articleTags: { with:
  { tag: true } } } })\<close> returns every article with the row of its author, the row of its
  category or \<open>null\<close>, and its link rows, each with the row of its tag. \<open>author: true\<close>
  selects all columns of the user. \<open>getAllArticles\<close> then adds \<open>tags\<close>, keeping the
  other keys (\<open>...article\<close>).
\<close>

record articleTagWithTag =
  link :: articleTag
  linkTag :: "tag option"

record articleWithRelations =
  row :: article
  author :: "user option"
  category :: "category option"
  articleTagsOf :: "articleTagWithTag list"
  tagsOf :: "tag option list"

definition withTag :: "db \<Rightarrow> articleTag \<Rightarrow> articleTagWithTag" where
  "withTag d l = \<lparr>link = l, linkTag = firstRow (filter (\<lambda>t. tag_id t = at_tagId l) (tags d))\<rparr>"

definition withRelations :: "db \<Rightarrow> article \<Rightarrow> articleWithRelations" where
  "withRelations d a =
     (let ats = map (withTag d) (filter (\<lambda>l. at_articleId l = art_id a) (articleTags d)) in
      \<lparr>row = a,
       author = firstRow (filter (\<lambda>u. user_id u = authorId a) (users d)),
       category = (case categoryId a of
                     None \<Rightarrow> None
                   | Some c \<Rightarrow> firstRow (filter (\<lambda>k. cat_id k = c) (categories d))),
       articleTagsOf = ats,
       tagsOf = map linkTag ats\<rparr>)"

text \<open>\<open>orderBy: [desc(articles.createdAt)]\<close>, with equal timestamps as for the users.\<close>

definition getAllArticles :: "db \<Rightarrow> articleWithRelations list" where
  "getAllArticles d =
     map (withRelations d) (sort_key (\<lambda>a. - int (createdAt a)) (articles d))"

definition getArticleById :: "varchar \<Rightarrow> db \<Rightarrow> articleWithRelations option" where
  "getArticleById i d =
     map_option (withRelations d) (firstRow (filter (\<lambda>a. art_id a = i) (articles d)))"

section \<open>Responses: serialising rows\<close>

text \<open>\<open>hasKey k j\<close>: some object inside \<open>j\<close>, at any depth, has the key \<open>k\<close>.\<close>

fun hasKey :: "string \<Rightarrow> json \<Rightarrow> bool"
  and hasKeyAny :: "string \<Rightarrow> json list \<Rightarrow> bool"
  and hasKeyFields :: "string \<Rightarrow> (string \<times> json) list \<Rightarrow> bool" where
  "hasKey k JNull = False"
| "hasKey k (JBool b) = False"
| "hasKey k (JStr s) = False"
| "hasKey k (JNum n) = False"
| "hasKey k JFrac = False"
| "hasKey k (JArr xs) = hasKeyAny k xs"
| "hasKey k (JObj fs) = hasKeyFields k fs"
| "hasKeyAny k [] = False"
| "hasKeyAny k (x # xs) = (hasKey k x \<or> hasKeyAny k xs)"
| "hasKeyFields k [] = False"
| "hasKeyFields k (f # fs) = (fst f = k \<or> hasKey k (snd f) \<or> hasKeyFields k fs)"

definition nullable :: "('a \<Rightarrow> json) \<Rightarrow> 'a option \<Rightarrow> json" where
  "nullable f v = (case v of None \<Rightarrow> JNull | Some x \<Rightarrow> f x)"

definition JDate :: "timestamp \<Rightarrow> json" where
  "JDate t = JNum (int t)"

definition userJson :: "user \<Rightarrow> json" where
  "userJson u =
     JObj [(''id'', JStr (user_id u)),
           (''username'', JStr (username u)),
           (''password'', JStr (password u)),
           (''email'', JStr (email u)),
           (''fullName'', JStr (fullName u)),
           (''role'', JStr (role u)),
           (''createdAt'', JDate (user_createdAt u))]"

definition categoryJson :: "category \<Rightarrow> json" where
  "categoryJson c =
     JObj [(''id'', JStr (cat_id c)),
           (''name'', JStr (cat_name c)),
           (''description'', nullable JStr (cat_description c)),
           (''color'', JStr (cat_color c)),
           (''createdAt'', JDate (cat_createdAt c))]"

definition tagJson :: "tag \<Rightarrow> json" where
  "tagJson t =
     JObj [(''id'', JStr (tag_id t)),
           (''name'', JStr (tag_name t)),
           (''createdAt'', JDate (tag_createdAt t))]"

definition articleFields :: "article \<Rightarrow> (string \<times> json) list" where
  "articleFields a =
     [(''id'', JStr (art_id a)),
      (''title'', JStr (title a)),
      (''content'', JStr (content a)),
      (''excerpt'', nullable JStr (excerpt a)),
      (''coverImage'', nullable JStr (coverImage a)),
      (''status'', JStr (status a)),
      (''categoryId'', nullable JStr (categoryId a)),
      (''authorId'', JStr (authorId a)),
      (''views'', JNum (views a)),
      (''createdAt'', JDate (createdAt a)),
      (''updatedAt'', JDate (updatedAt a)),
      (''publishedAt'', nullable JDate (publishedAt a))]"

definition articleJson :: "article \<Rightarrow> json" where
  "articleJson a = JObj (articleFields a)"

definition articleTagWithTagJson :: "articleTagWithTag \<Rightarrow> json" where
  "articleTagWithTagJson l =
     JObj [(''id'', JStr (at_id (link l))),
           (''articleId'', JStr (at_articleId (link l))),
           (''tagId'', JStr (at_tagId (link l))),
           (''tag'', nullable tagJson (linkTag l))]"

definition articleWithRelationsJson :: "articleWithRelations \<Rightarrow> json" where
  "articleWithRelationsJson r =
     JObj (articleFields (row r)
           @ [(''author'', nullable userJson (author r)),
              (''category'', nullable categoryJson (category r)),
              (''articleTags'', JArr (map articleTagWithTagJson (articleTagsOf r))),
              (''tags'', JArr (map (nullable tagJson) (tagsOf r)))])"

text \<open>\<open>({ password, ...user }) => user\<close>: the object without its \<open>password\<close> key.\<close>

definition withoutPassword :: "json \<Rightarrow> json" where
  "withoutPassword j =
     (case j of JObj fs \<Rightarrow> JObj (filter (\<lambda>f. fst f \<noteq> ''password'') fs) | _ \<Rightarrow> j)"

section \<open>Request validation (the zod schemas of shared/schema.ts)\<close>

text \<open>
  \<open>req.body\<close> is a JSON object. Each field below is the value under that key, \<open>None\<close>
  when the body has no such key. The keys are the columns a handler can reach: the seven
  keys of the article insert schema, and \<open>id\<close>, \<open>views\<close> and \<open>createdAt\<close>, which the
  schema strips and the \<open>PATCH\<close> handler does not. (A body's \<open>updatedAt\<close> and
  \<open>publishedAt\<close> never reach a column: \<open>updateArticle\<close> writes both keys after the
  spread.) \<open>tagIds\<close> is the value the two article handlers take off the body and pass on
  unchecked. Keys that are named nowhere are read by nothing.
\<close>

record userBody =
  ub_username :: "json option"
  ub_password :: "json option"
  ub_email :: "json option"
  ub_fullName :: "json option"
  ub_role :: "json option"

record articleBody =
  ab_title :: "json option"
  ab_content :: "json option"
  ab_excerpt :: "json option"
  ab_coverImage :: "json option"
  ab_status :: "json option"
  ab_categoryId :: "json option"
  ab_authorId :: "json option"
  ab_id :: "json option"
  ab_views :: "json option"
  ab_createdAt :: "json option"
  ab_tagIds :: "json option"

text \<open>
  zod's issues for a string key: \<open>Required\<close> for a missing key, \<open>Expected string,
  received ...\<close> for a value of another kind, the schema's own message when the check of
  the string fails. \<open>zStringOptional\<close> is \<open>z.string().optional()\<close> (a column with a
  default), \<open>zStringNullish\<close> is \<open>z.string().nullable().optional()\<close> (a nullable column).
\<close>

definition kindName :: "json \<Rightarrow> string" where
  "kindName j =
     (case j of
        JNull \<Rightarrow> ''null''
      | JBool b \<Rightarrow> ''boolean''
      | JStr s \<Rightarrow> ''string''
      | JNum n \<Rightarrow> ''number''
      | JFrac \<Rightarrow> ''number''
      | JArr xs \<Rightarrow> ''array''
      | JObj fs \<Rightarrow> ''object'')"

definition issue :: "string \<Rightarrow> string \<Rightarrow> zodIssue" where
  "issue key msg = \<lparr>issuePath = key, issueMessage = msg\<rparr>"

definition expectedString :: "string \<Rightarrow> json \<Rightarrow> zodIssue" where
  "expectedString key j = issue key (''Expected string, received '' @ kindName j)"

definition zString :: "string \<Rightarrow> json option \<Rightarrow> (string \<Rightarrow> bool) \<Rightarrow> string \<Rightarrow> zodIssue list" where
  "zString key v check msg =
     (case v of
        None \<Rightarrow> [issue key ''Required'']
      | Some (JStr s) \<Rightarrow> if check s then [] else [issue key msg]
      | Some j \<Rightarrow> [expectedString key j])"

definition zStringOptional :: "string \<Rightarrow> json option \<Rightarrow> zodIssue list" where
  "zStringOptional key v =
     (case v of
        None \<Rightarrow> []
      | Some (JStr s) \<Rightarrow> []
      | Some j \<Rightarrow> [expectedString key j])"

definition zStringNullish :: "string \<Rightarrow> json option \<Rightarrow> zodIssue list" where
  "zStringNullish key v =
     (case v of
        None \<Rightarrow> []
      | Some JNull \<Rightarrow> []
      | Some (JStr s) \<Rightarrow> []
      | Some j \<Rightarrow> [expectedString key j])"

text \<open>The values a parsed body hands on, for the keys that passed.\<close>

definition optionalString :: "json option \<Rightarrow> string option" where
  "optionalString v = (case v of Some (JStr s) \<Rightarrow> Some s | _ \<Rightarrow> None)"

definition nullishString :: "json option \<Rightarrow> string option option" where
  "nullishString v =
     (case v of None \<Rightarrow> None | Some (JStr s) \<Rightarrow> Some (Some s) | Some j \<Rightarrow> Some None)"

definition insertUserSchema_issues :: "env \<Rightarrow> userBody \<Rightarrow> zodIssue list" where
  "insertUserSchema_issues e b =
     zString ''username'' (ub_username b) (\<lambda>s. length s \<ge> 3)
       ''Username must be at least 3 characters''
     @ zString ''password'' (ub_password b) (\<lambda>s. length s \<ge> 6)
         ''Password must be at least 6 characters''
     @ zString ''email'' (ub_email b) (isEmail e) ''Invalid email address''
     @ zString ''fullName'' (ub_fullName b) (\<lambda>s. length s \<ge> 2) ''Full name is required''
     @ zStringOptional ''role'' (ub_role b)"

definition insertUserSchema_parse :: "env \<Rightarrow> userBody \<Rightarrow> zodIssue list + insertUser" where
  "insertUserSchema_parse e b =
     (case (ub_username b, ub_password b, ub_email b, ub_fullName b) of
        (Some (JStr u), Some (JStr p), Some (JStr m), Some (JStr f)) \<Rightarrow>
          if insertUserSchema_issues e b = []
          then Inr \<lparr>iu_username = u, iu_password = p, iu_email = m, iu_fullName = f,
                    iu_role = optionalString (ub_role b)\<rparr>
          else Inl (insertUserSchema_issues e b)
      | _ \<Rightarrow> Inl (insertUserSchema_issues e b))"

text \<open>
  The article schema keeps the seven keys below and strips every other key of the body
  (\<open>tagIds\<close> has been taken off before \<open>parse\<close> is called).
\<close>

definition insertArticleSchema_issues :: "articleBody \<Rightarrow> zodIssue list" where
  "insertArticleSchema_issues b =
     zString ''title'' (ab_title b) (\<lambda>s. length s \<ge> 1) ''Title is required''
     @ zString ''content'' (ab_content b) (\<lambda>s. length s \<ge> 1) ''Content is required''
     @ zStringNullish ''excerpt'' (ab_excerpt b)
     @ zStringNullish ''coverImage'' (ab_coverImage b)
     @ zStringOptional ''status'' (ab_status b)
     @ zStringNullish ''categoryId'' (ab_categoryId b)
     @ zString ''authorId'' (ab_authorId b) (\<lambda>s. True) ''Required''"

definition insertArticleSchema_parse :: "articleBody \<Rightarrow> zodIssue list + insertArticle" where
  "insertArticleSchema_parse b =
     (case (ab_title b, ab_content b, ab_authorId b) of
        (Some (JStr t), Some (JStr c), Some (JStr a)) \<Rightarrow>
          if insertArticleSchema_issues b = []
          then Inr \<lparr>ins_title = t, ins_content = c,
                    ins_excerpt = nullishString (ab_excerpt b),
                    ins_coverImage = nullishString (ab_coverImage b),
                    ins_status = optionalString (ab_status b),
                    ins_categoryId = nullishString (ab_categoryId b),
                    ins_authorId = a\<rparr>
          else Inl (insertArticleSchema_issues b)
      | _ \<Rightarrow> Inl (insertArticleSchema_issues b))"

section \<open>The article methods on the values the handlers pass\<close>

text \<open>
  The signatures declare \<open>Partial<InsertArticle>\<close> and \<open>string[]\<close>, and \<open>createArticle\<close>
  and \<open>updateArticle\<close> above are the methods on such values. The handlers pass parts of
  the request body as they came, which the compiler takes as \<open>any\<close>: \<open>tagIds\<close> in both
  handlers, and the rest of the body in \<open>PATCH\<close>. \<open>createArticleAny\<close> and
  \<open>updateArticleAny\<close> are the same methods on those values. \<open>.set()\<close> reads every key that
  is a column:
  \<^item> a \<open>timestamp\<close> column encodes its value with \<open>toISOString()\<close>, which no JSON value has,
    so a \<open>createdAt\<close> other than \<open>null\<close> makes the query builder throw before any
    statement is sent;
  \<^item> the value for \<open>views\<close> must be read as an \<open>integer\<close> by the database, which rejects
    the statement otherwise, whether or not a row matches;
  \<^item> every other value is sent as text (a string as it is), \<open>null\<close> as \<open>NULL\<close>.
  For the rows that match, the database then checks \<open>notNull()\<close>, the primary key, and the
  foreign keys in both directions (a changed \<open>id\<close> must not leave link rows behind).
\<close>

definition textParam :: "env \<Rightarrow> json \<Rightarrow> string option" where
  "textParam e j = (case j of JNull \<Rightarrow> None | JStr s \<Rightarrow> Some s | _ \<Rightarrow> Some (driverText e j))"

definition textColumn :: "env \<Rightarrow> json option \<Rightarrow> string option option" where
  "textColumn e v = map_option (textParam e) v"

definition intParam :: "env \<Rightarrow> json \<Rightarrow> storeError + int option" where
  "intParam e j =
     (case j of
        JNull \<Rightarrow> Inr None
      | JNum n \<Rightarrow>
          if INT4_MIN \<le> n \<and> n \<le> INT4_MAX then Inr (Some n) else Inl NumericValueOutOfRange
      | JStr s \<Rightarrow>
          (case int4In e s of None \<Rightarrow> Inl InvalidTextRepresentation | Some n \<Rightarrow> Inr (Some n))
      | JFrac \<Rightarrow> Inl InvalidTextRepresentation
      | _ \<Rightarrow>
          (case int4In e (driverText e j) of
             None \<Rightarrow> Inl InvalidTextRepresentation
           | Some n \<Rightarrow> Inr (Some n)))"

definition intColumn :: "env \<Rightarrow> json option \<Rightarrow> storeError + int option option" where
  "intColumn e v =
     (case v of
        None \<Rightarrow> Inr None
      | Some j \<Rightarrow> (case intParam e j of Inl err \<Rightarrow> Inl err | Inr n \<Rightarrow> Inr (Some n)))"

text \<open>A \<open>notNull()\<close> column takes a value only; a skipped key keeps the stored one.\<close>

definition assign :: "'a option option \<Rightarrow> 'a \<Rightarrow> 'a" where
  "assign v old = (case v of Some (Some x) \<Rightarrow> x | _ \<Rightarrow> old)"

definition builderThrows :: "articleBody \<Rightarrow> bool" where
  "builderThrows b = (case ab_createdAt b of None \<Rightarrow> False | Some j \<Rightarrow> j \<noteq> JNull)"

definition nullGiven :: "articleBody \<Rightarrow> bool" where
  "nullGiven b =
     (Some JNull \<in> set [ab_id b, ab_title b, ab_content b, ab_status b, ab_authorId b,
                         ab_views b, ab_createdAt b])"

definition setRejected :: "env \<Rightarrow> varchar \<Rightarrow> articleBody \<Rightarrow> db \<Rightarrow> storeError option" where
  "setRejected e i b d =
     (if nullGiven b then Some NotNullViolation
      else if (case textColumn e (ab_id b) of
                 Some (Some n) \<Rightarrow> n \<noteq> i \<and> n \<in> set (articleIds d)
               | _ \<Rightarrow> False)
      then Some UniqueViolation
      else if (case textColumn e (ab_id b) of
                 Some (Some n) \<Rightarrow> n \<noteq> i \<and> i \<in> set (map at_articleId (articleTags d))
               | _ \<Rightarrow> False)
      then Some ForeignKeyViolation
      else if (case textColumn e (ab_authorId b) of
                 Some (Some x) \<Rightarrow> x \<notin> set (userIds d)
               | _ \<Rightarrow> False)
      then Some ForeignKeyViolation
      else if (case textColumn e (ab_categoryId b) of
                 None \<Rightarrow> False
               | Some c \<Rightarrow> categoryMissing d c)
      then Some ForeignKeyViolation
      else None)"

definition setArticleAny ::
  "env \<Rightarrow> articleBody \<Rightarrow> int option option \<Rightarrow> timestamp option \<Rightarrow> article \<Rightarrow> article" where
  "setArticleAny e b vw pub a =
     a\<lparr>art_id := assign (textColumn e (ab_id b)) (art_id a),
       title := assign (textColumn e (ab_title b)) (title a),
       content := assign (textColumn e (ab_content b)) (content a),
       excerpt := setOr (textColumn e (ab_excerpt b)) (excerpt a),
       coverImage := setOr (textColumn e (ab_coverImage b)) (coverImage a),
       status := assign (textColumn e (ab_status b)) (status a),
       categoryId := setOr (textColumn e (ab_categoryId b)) (categoryId a),
       authorId := assign (textColumn e (ab_authorId b)) (authorId a),
       views := assign vw (views a),
       updatedAt := clock e,
       publishedAt := (case pub of None \<Rightarrow> publishedAt a | Some t \<Rightarrow> Some t)\<rparr>"

definition updateArticleRowAny ::
  "env \<Rightarrow> varchar \<Rightarrow> articleBody \<Rightarrow> timestamp option \<Rightarrow> db \<Rightarrow> thrown + (article list \<times> db)" where
  "updateArticleRowAny e i b pub d =
     (if builderThrows b then Inl TypeError
      else
        (case intColumn e (ab_views b) of
           Inl err \<Rightarrow> Inl (StoreError err)
         | Inr vw \<Rightarrow>
             (let matched = filter (\<lambda>a. art_id a = i) (articles d) in
              case (if matched \<noteq> [] then setRejected e i b d else None) of
                Some err \<Rightarrow> Inl (StoreError err)
              | None \<Rightarrow>
                  Inr (map (setArticleAny e b vw pub) matched,
                       d\<lparr>articles := map (\<lambda>a. if art_id a = i then setArticleAny e b vw pub a
                                               else a) (articles d)\<rparr>))))"

text \<open>
  What JavaScript does with an unchecked \<open>tagIds\<close>. \<open>truthy\<close> is the test \<open>tagIds &&\<close>.
  \<open>lengthPositive\<close> is \<open>tagIds.length > 0\<close>: reading \<open>length\<close> of \<open>null\<close> throws, a
  number or a boolean has no \<open>length\<close> (and \<open>undefined > 0\<close> is false), an object has the
  one it carries as a key. \<open>tagRows\<close> is \<open>tagIds.map(...)\<close>, which only an array has; its
  elements become the \<open>tag_id\<close> parameters of the new rows, \<open>null\<close> as \<open>NULL\<close>.
\<close>

definition truthy :: "json \<Rightarrow> bool" where
  "truthy j =
     (case j of
        JNull \<Rightarrow> False
      | JBool b \<Rightarrow> b
      | JStr s \<Rightarrow> s \<noteq> []
      | JNum n \<Rightarrow> n \<noteq> 0
      | _ \<Rightarrow> True)"

definition greaterThanZero :: "env \<Rightarrow> json \<Rightarrow> bool" where
  "greaterThanZero e l =
     (case l of
        JNull \<Rightarrow> False
      | JBool b \<Rightarrow> b
      | JNum n \<Rightarrow> n > 0
      | _ \<Rightarrow> jsPositive e l)"

definition lengthPositive :: "env \<Rightarrow> json \<Rightarrow> thrown + bool" where
  "lengthPositive e j =
     (case j of
        JNull \<Rightarrow> Inl TypeError
      | JStr s \<Rightarrow> Inr (s \<noteq> [])
      | JArr xs \<Rightarrow> Inr (xs \<noteq> [])
      | JObj fs \<Rightarrow>
          Inr (case map_of fs ''length'' of None \<Rightarrow> False | Some l \<Rightarrow> greaterThanZero e l)
      | _ \<Rightarrow> Inr False)"

definition tagRows :: "env \<Rightarrow> json \<Rightarrow> thrown + string option list" where
  "tagRows e j = (case j of JArr xs \<Rightarrow> Inr (map (textParam e) xs) | _ \<Rightarrow> Inl TypeError)"

definition insertArticleTagsAny ::
  "env \<Rightarrow> nat \<Rightarrow> varchar \<Rightarrow> string option list \<Rightarrow> db \<Rightarrow> storeError + db" where
  "insertArticleTagsAny e k0 a vals d =
     (case those vals of
        None \<Rightarrow> Inl NotNullViolation
      | Some ts \<Rightarrow> insertArticleTags e k0 (map (\<lambda>tagId. (a, tagId)) ts) d)"

definition insertTagsOf ::
  "env \<Rightarrow> nat \<Rightarrow> varchar \<Rightarrow> json \<Rightarrow> db \<Rightarrow> thrown + db" where
  "insertTagsOf e k0 a tagIds d =
     (case tagRows e tagIds of
        Inl t \<Rightarrow> Inl t
      | Inr vals \<Rightarrow>
          (case insertArticleTagsAny e k0 a vals d of
             Inl err \<Rightarrow> Inl (StoreError err)
           | Inr d' \<Rightarrow> Inr d'))"

definition createArticleAny ::
  "env \<Rightarrow> insertArticle \<Rightarrow> json option \<Rightarrow> db \<Rightarrow> (thrown + article) \<times> db" where
  "createArticleAny e insertArticle tagIds d =
     (case insertArticleRow e insertArticle
             (if ins_status insertArticle = Some ''published'' then Some (clock e) else None) d of
        Inl err \<Rightarrow> (Inl (StoreError err), d)
      | Inr (article, d1) \<Rightarrow>
          (case tagIds of
             None \<Rightarrow> (Inr article, d1)
           | Some j \<Rightarrow>
               if truthy j then
                 (case lengthPositive e j of
                    Inl t \<Rightarrow> (Inl t, d1)
                  | Inr positive \<Rightarrow>
                      if positive then
                        (case insertTagsOf e 1 (art_id article) j d1 of
                           Inl t \<Rightarrow> (Inl t, d1)
                         | Inr d2 \<Rightarrow> (Inr article, d2))
                      else (Inr article, d1))
               else (Inr article, d1)))"

definition updateArticleAny ::
  "env \<Rightarrow> varchar \<Rightarrow> articleBody \<Rightarrow> json option \<Rightarrow> db \<Rightarrow> (thrown + article option) \<times> db" where
  "updateArticleAny e i updateData tagIds d =
     (case updateArticleRowAny e i updateData
             (if ab_status updateData = Some (JStr ''published'') then Some (clock e) else None)
             d of
        Inl t \<Rightarrow> (Inl t, d)
      | Inr (rows, d1) \<Rightarrow>
          (let article = (case rows of [] \<Rightarrow> None | a # _ \<Rightarrow> Some a) in
           case tagIds of
             None \<Rightarrow> (Inr article, d1)
           | Some j \<Rightarrow>
               (let d2 = deleteArticleTagsOf i d1 in
                case lengthPositive e j of
                  Inl t \<Rightarrow> (Inl t, d2)
                | Inr positive \<Rightarrow>
                    if positive then
                      (case insertTagsOf e 0 i j d2 of
                         Inl t \<Rightarrow> (Inl t, d2)
                       | Inr d3 \<Rightarrow> (Inr article, d3))
                    else (Inr article, d2))))"

text \<open>Values of the declared types, as what they are at run time.\<close>

definition tagIdsJson :: "varchar list option \<Rightarrow> json option" where
  "tagIdsJson tagIds = map_option (\<lambda>ts. JArr (map JStr ts)) tagIds"

definition nullishJson :: "string option option \<Rightarrow> json option" where
  "nullishJson v = map_option (\<lambda>x. case x of None \<Rightarrow> JNull | Some s \<Rightarrow> JStr s) v"

definition asObject :: "partialInsertArticle \<Rightarrow> articleBody" where
  "asObject u =
     \<lparr>ab_title = map_option JStr (upd_title u),
      ab_content = map_option JStr (upd_content u),
      ab_excerpt = nullishJson (upd_excerpt u),
      ab_coverImage = nullishJson (upd_coverImage u),
      ab_status = map_option JStr (upd_status u),
      ab_categoryId = nullishJson (upd_categoryId u),
      ab_authorId = map_option JStr (upd_authorId u),
      ab_id = None,
      ab_views = None,
      ab_createdAt = None,
      ab_tagIds = None\<rparr>"

section \<open>The route handlers (server/routes.ts)\<close>

text \<open>
  A handler takes the session's user id, the request and the tables, and returns the
  response with the tables as it leaves them. \<open>respBody = None\<close> is the empty body
  \<open>res.json(undefined)\<close> sends.
\<close>

record response =
  statusCode :: nat
  respBody :: "json option"

definition errorResponse :: "nat \<Rightarrow> string \<Rightarrow> response" where
  "errorResponse code msg = \<lparr>statusCode = code, respBody = Some (JObj [(''error'', JStr msg)])\<rparr>"

text \<open>\<open>res.status(code).json({ error: error.message || fallback })\<close>.\<close>

definition caught :: "env \<Rightarrow> nat \<Rightarrow> thrown \<Rightarrow> string \<Rightarrow> response" where
  "caught e code t fallback =
     errorResponse code (if errorText e t = [] then fallback else errorText e t)"

definition ok :: "json option \<Rightarrow> response" where
  "ok j = \<lparr>statusCode = 200, respBody = j\<rparr>"

text \<open>\<open>requireAuth\<close>: \<open>!req.session.userId\<close> holds for a missing id and for the empty string.\<close>

definition requireAuth ::
  "varchar option \<Rightarrow> db \<Rightarrow> (varchar \<Rightarrow> response \<times> db) \<Rightarrow> response \<times> db" where
  "requireAuth sessionUserId d next =
     (case sessionUserId of
        None \<Rightarrow> (errorResponse 401 ''Unauthorized'', d)
      | Some uid \<Rightarrow> if uid = [] then (errorResponse 401 ''Unauthorized'', d) else next uid)"

text \<open>\<open>POST /api/auth/register\<close>.\<close>

definition register :: "env \<Rightarrow> userBody \<Rightarrow> db \<Rightarrow> response \<times> db" where
  "register e body d =
     (case insertUserSchema_parse e body of
        Inl issues \<Rightarrow> (caught e 400 (ZodError issues) ''Registration failed'', d)
      | Inr data \<Rightarrow>
          if getUserByUsername (iu_username data) d \<noteq> None
          then (errorResponse 400 ''Username already exists'', d)
          else if getUserByEmail (iu_email data) d \<noteq> None
          then (errorResponse 400 ''Email already exists'', d)
          else
            (let hashedPassword = bcryptHash e (iu_password data) in
             case createUser e (data\<lparr>iu_password := hashedPassword\<rparr>) d of
               (Inl err, d') \<Rightarrow> (caught e 400 (StoreError err) ''Registration failed'', d')
             | (Inr user, d') \<Rightarrow>
                 (ok (Some (JObj [(''id'', JStr (user_id user)),
                                  (''username'', JStr (username user)),
                                  (''email'', JStr (email user))])), d')))"

text \<open>\<open>GET /api/employees\<close>, with its comment \<open>// Don't send passwords\<close>.\<close>

definition getEmployees :: "varchar option \<Rightarrow> db \<Rightarrow> response \<times> db" where
  "getEmployees sessionUserId d =
     requireAuth sessionUserId d (\<lambda>uid.
       (let employees = getAllUsers d;
            sanitized = map (\<lambda>u. withoutPassword (userJson u)) employees
        in (ok (Some (JArr sanitized)), d)))"

text \<open>\<open>GET /api/articles\<close>: the result of \<open>getAllArticles\<close> is sent as it is.\<close>

definition getArticles :: "varchar option \<Rightarrow> db \<Rightarrow> response \<times> db" where
  "getArticles sessionUserId d =
     requireAuth sessionUserId d (\<lambda>uid.
       (ok (Some (JArr (map articleWithRelationsJson (getAllArticles d)))), d))"

text \<open>
  \<open>POST /api/articles\<close>: \<open>tagIds\<close> is taken off the body, the rest is parsed with
  \<open>authorId\<close> set to the session's user.
\<close>

definition postArticles :: "env \<Rightarrow> varchar option \<Rightarrow> articleBody \<Rightarrow> db \<Rightarrow> response \<times> db" where
  "postArticles e sessionUserId body d =
     requireAuth sessionUserId d (\<lambda>uid.
       case getUser uid d of
         None \<Rightarrow> (errorResponse 401 ''User not found'', d)
       | Some user \<Rightarrow>
           (case insertArticleSchema_parse (body\<lparr>ab_authorId := Some (JStr (user_id user))\<rparr>) of
              Inl issues \<Rightarrow> (caught e 400 (ZodError issues) ''Failed to create article'', d)
            | Inr data \<Rightarrow>
                (case createArticleAny e data (ab_tagIds body) d of
                   (Inl t, d') \<Rightarrow> (caught e 400 t ''Failed to create article'', d')
                 | (Inr article, d') \<Rightarrow> (ok (Some (articleJson article)), d'))))"

text \<open>
  \<open>PATCH /api/articles/:id\<close>: \<open>tagIds\<close> is taken off the body and the rest
  (\<open>...articleData\<close>) goes to \<open>updateArticle\<close> as it came, with no \<open>parse\<close>.
\<close>

definition articleData :: "articleBody \<Rightarrow> articleBody" where
  "articleData b = b\<lparr>ab_tagIds := None\<rparr>"

definition patchArticles ::
  "env \<Rightarrow> varchar option \<Rightarrow> varchar \<Rightarrow> articleBody \<Rightarrow> db \<Rightarrow> response \<times> db" where
  "patchArticles e sessionUserId i body d =
     requireAuth sessionUserId d (\<lambda>uid.
       case updateArticleAny e i (articleData body) (ab_tagIds body) d of
         (Inl t, d') \<Rightarrow> (caught e 400 t ''Failed to update article'', d')
       | (Inr article, d') \<Rightarrow> (ok (map_option articleJson article), d'))"

section \<open>Sequences of storage calls\<close>

text \<open>
  The calls that write to the tables, as values, so that a property can be stated for
  every sequence of them. \<open>exec\<close> runs one call and keeps the tables it leaves (also
  when the call throws), \<open>run\<close> runs a sequence from left to right.
\<close>

datatype storageOp =
  CreateUser env insertUser
  | DeleteUser varchar
  | CreateCategory env insertCategory
  | DeleteCategory varchar
  | CreateTag env insertTag
  | DeleteTag varchar
  | CreateArticle env insertArticle "varchar list option"
  | UpdateArticle env varchar partialInsertArticle "varchar list option"
  | DeleteArticle varchar
  | IncrementArticleViews varchar

fun exec :: "storageOp \<Rightarrow> db \<Rightarrow> db" where
  "exec (CreateUser e v) d = snd (createUser e v d)"
| "exec (DeleteUser i) d = snd (deleteUser i d)"
| "exec (CreateCategory e v) d = snd (createCategory e v d)"
| "exec (DeleteCategory i) d = snd (deleteCategory i d)"
| "exec (CreateTag e v) d = snd (createTag e v d)"
| "exec (DeleteTag i) d = deleteTag i d"
| "exec (CreateArticle e v ts) d = snd (createArticle e v ts d)"
| "exec (UpdateArticle e i u ts) d = snd (updateArticle e i u ts d)"
| "exec (DeleteArticle i) d = deleteArticle i d"
| "exec (IncrementArticleViews i) d = snd (incrementArticleViews i d)"

fun run :: "storageOp list \<Rightarrow> db \<Rightarrow> db" where
  "run [] d = d"
| "run (op # ops) d = run ops (exec op d)"

text \<open>
  What happened to the article rows, in order: \<open>Created i s\<close> when a \<open>createArticle\<close>
  whose \<open>status\<close> key was \<open>s\<close> stored the row \<open>i\<close>, \<open>Updated i s\<close> when an
  \<open>updateArticle\<close> whose \<open>status\<close> key was \<open>s\<close> changed the row \<open>i\<close>, \<open>Deleted i\<close> for a
  \<open>deleteArticle\<close> of \<open>i\<close>. A call the database rejected at the row, or an update that
  matched no row, leaves no event.
\<close>

datatype event =
  Created varchar "string option"
  | Updated varchar "string option"
  | Deleted varchar

fun events :: "storageOp \<Rightarrow> db \<Rightarrow> event list" where
  "events (CreateArticle e v ts) d =
     (case insertArticleRow e v
             (if ins_status v = Some ''published'' then Some (clock e) else None) d of
        Inl err \<Rightarrow> []
      | Inr (a, d1) \<Rightarrow> [Created (art_id a) (ins_status v)])"
| "events (UpdateArticle e i u ts) d =
     (case updateArticleRow e i u
             (if upd_status u = Some ''published'' then Some (clock e) else None) d of
        Inl err \<Rightarrow> []
      | Inr (rows, d1) \<Rightarrow> if rows = [] then [] else [Updated i (upd_status u)])"
| "events (DeleteArticle i) d = [Deleted i]"
| "events _ d = []"

fun history :: "storageOp list \<Rightarrow> db \<Rightarrow> event list" where
  "history [] d = []"
| "history (op # ops) d = events op d @ history ops (exec op d)"

text \<open>
  \<open>publishCarried acc evs i\<close>: reading the events from the oldest on, whether the article
  that has the id \<open>i\<close> at the end was created or updated with \<open>status = "published"\<close>.
  \<open>acc\<close> is the answer before the first event; a creation starts the article's life, a
  deletion ends it.
\<close>

fun publishCarried :: "bool \<Rightarrow> event list \<Rightarrow> varchar \<Rightarrow> bool" where
  "publishCarried acc [] i = acc"
| "publishCarried acc (Created j s # evs) i =
     publishCarried (if j = i then s = Some ''published'' else acc) evs i"
| "publishCarried acc (Updated j s # evs) i =
     publishCarried (if j = i \<and> s = Some ''published'' then True else acc) evs i"
| "publishCarried acc (Deleted j # evs) i =
     publishCarried (if j = i then False else acc) evs i"

text \<open>
  \<open>stampAgrees d acc i\<close>: every stored article with the id \<open>i\<close> has a \<open>publishedAt\<close>
  exactly when \<open>acc\<close> holds.
\<close>

definition stampAgrees :: "db \<Rightarrow> bool \<Rightarrow> varchar \<Rightarrow> bool" where
  "stampAgrees d acc i =
     (\<forall>a \<in> set (articles d). art_id a = i \<longrightarrow> (publishedAt a \<noteq> None \<longleftrightarrow> acc))"

text \<open>\<open>n\<close> calls of \<open>incrementArticleViews\<close> one after the other, stopping at the first that throws.\<close>

fun incrementArticleViewsTimes :: "nat \<Rightarrow> varchar \<Rightarrow> db \<Rightarrow> (storeError + unit) \<times> db" where
  "incrementArticleViewsTimes 0 i d = (Inr (), d)"
| "incrementArticleViewsTimes (Suc n) i d =
     (case incrementArticleViews i d of
        (Inl err, d') \<Rightarrow> (Inl err, d')
      | (Inr u, d') \<Rightarrow> incrementArticleViewsTimes n i d')"

section \<open>When the database accepts new link rows\<close>

text \<open>
  \<open>linkIdsTaken e k0 n links\<close>: the \<open>n\<close> identifiers generated from \<open>uuid e k0\<close> on are
  not pairwise different, or one of them is the id of a row of \<open>links\<close>.
  \<open>linksRejected e k0 a ts d\<close>: the insert of one link row per tag id of \<open>ts\<close> for the
  article \<open>a\<close> violates a constraint of \<open>article_tags\<close>: its primary key, or a foreign key
  (no article \<open>a\<close>, or an id that names no tag).
\<close>

definition linkIdsTaken :: "env \<Rightarrow> nat \<Rightarrow> nat \<Rightarrow> articleTag list \<Rightarrow> bool" where
  "linkIdsTaken e k0 n links =
     (\<not> distinct (map (uuid e) [k0..<k0 + n])
      \<or> (\<exists>k \<in> set [k0..<k0 + n]. uuid e k \<in> set (map at_id links)))"

definition linksRejected :: "env \<Rightarrow> nat \<Rightarrow> varchar \<Rightarrow> varchar list \<Rightarrow> db \<Rightarrow> bool" where
  "linksRejected e k0 a ts d =
     (ts \<noteq> []
      \<and> (linkIdsTaken e k0 (length ts) (articleTags d)
         \<or> a \<notin> set (articleIds d)
         \<or> \<not> set ts \<subseteq> set (tagIdsOf d)))"

section \<open>Example data\<close>

text \<open>
  The values of \<open>exErrorText\<close>, \<open>driverText\<close>, \<open>int4In\<close> and \<open>jsPositive\<close> below are
  stand-ins for what the libraries and the language produce; nothing proved depends on
  them.
\<close>

text \<open>
  A small store used to run the operations on concrete inputs: one user, one category,
  two tags, and one article that is already published (at time 10) and carries the tag
  \<open>intro\<close>.
\<close>

definition exErrorText :: "thrown \<Rightarrow> string" where
  "exErrorText t =
     (case t of
        ZodError issues \<Rightarrow> concat (map issueMessage issues)
      | StoreError err \<Rightarrow> ''rejected by the database''
      | TypeError \<Rightarrow> ''value.toISOString is not a function'')"

definition exEnv :: env where
  "exEnv = \<lparr>clock = 50, dbNow = 51, uuid = (\<lambda>k. replicate (Suc k) CHR ''n''),
            bcryptHash = (\<lambda>p. CHR ''#'' # p), isEmail = (\<lambda>s. CHR ''@'' \<in> set s),
            errorText = exErrorText, driverText = (\<lambda>j. ''?''), int4In = (\<lambda>s. None),
            jsPositive = (\<lambda>j. False)\<rparr>"

definition exAlice :: user where
  "exAlice = \<lparr>user_id = ''u1'', username = ''alice'', password = ''#secret1'',
              email = ''alice@x.com'', fullName = ''Alice A'', role = ''employee'',
              user_createdAt = 1\<rparr>"

definition exGuides :: category where
  "exGuides = \<lparr>cat_id = ''c1'', cat_name = ''Guides'', cat_description = None,
               cat_color = ''#3b82f6'', cat_createdAt = 2\<rparr>"

definition exIntro :: tag where
  "exIntro = \<lparr>tag_id = ''t1'', tag_name = ''intro'', tag_createdAt = 3\<rparr>"

definition exTutorial :: tag where
  "exTutorial = \<lparr>tag_id = ''t2'', tag_name = ''tutorial'', tag_createdAt = 4\<rparr>"

definition exHello :: article where
  "exHello = \<lparr>art_id = ''a1'', title = ''Hello'', content = ''World'', excerpt = None,
              coverImage = None, status = ''published'', categoryId = Some ''c1'',
              authorId = ''u1'', views = 7, createdAt = 5, updatedAt = 10,
              publishedAt = Some 10\<rparr>"

definition exDb :: db where
  "exDb = \<lparr>users = [exAlice], categories = [exGuides], tags = [exIntro, exTutorial],
           articles = [exHello],
           articleTags = [\<lparr>at_id = ''l1'', at_articleId = ''a1'', at_tagId = ''t1''\<rparr>]\<rparr>"

definition noChange :: partialInsertArticle where
  "noChange = \<lparr>upd_title = None, upd_content = None, upd_excerpt = None,
               upd_coverImage = None, upd_status = None, upd_categoryId = None,
               upd_authorId = None\<rparr>"

text \<open>An insert of a second article, published at once.\<close>

definition exSecond :: insertArticle where
  "exSecond = \<lparr>ins_title = ''Second'', ins_content = ''Text'', ins_excerpt = None,
                ins_coverImage = None, ins_status = Some ''published'',
                ins_categoryId = Some (Some ''c1''), ins_authorId = ''u1''\<rparr>"

text \<open>A request body with no key at all.\<close>

definition exBody :: articleBody where
  "exBody = \<lparr>ab_title = None, ab_content = None, ab_excerpt = None, ab_coverImage = None,
             ab_status = None, ab_categoryId = None, ab_authorId = None, ab_id = None,
             ab_views = None, ab_createdAt = None, ab_tagIds = None\<rparr>"

definition exBob :: userBody where
  "exBob = \<lparr>ub_username = Some (JStr ''bob''), ub_password = Some (JStr ''hunter22''),
            ub_email = Some (JStr ''bob@x.com''), ub_fullName = Some (JStr ''Bob B''),
            ub_role = None\<rparr>"

text \<open>
  A sequence of calls on the empty store: a user, a draft by that user, an update that
  publishes it, and an update that sets it back to draft.
\<close>

definition exTrace :: "storageOp list" where
  "exTrace =
     [CreateUser exEnv \<lparr>iu_username = ''alice'', iu_password = ''#secret1'',
                         iu_email = ''alice@x.com'', iu_fullName = ''Alice A'', iu_role = None\<rparr>,
      CreateArticle exEnv \<lparr>ins_title = ''Hello'', ins_content = ''World'', ins_excerpt = None,
                            ins_coverImage = None, ins_status = Some ''draft'',
                            ins_categoryId = None, ins_authorId = ''n''\<rparr> None,
      UpdateArticle (exEnv\<lparr>clock := 60\<rparr>) ''n'' (noChange\<lparr>upd_status := Some ''published''\<rparr>) None,
      UpdateArticle (exEnv\<lparr>clock := 70\<rparr>) ''n'' (noChange\<lparr>upd_status := Some ''draft''\<rparr>) None]"

lemmas ex_defs = exEnv_def exAlice_def exGuides_def exIntro_def exTutorial_def exHello_def
  exDb_def noChange_def exSecond_def exBody_def exBob_def

lemmas storage_defs = updateArticle_def updateArticleRow_def insertArticleTags_def
  newArticleTagRows_def deleteArticleTagsOf_def setArticle_def setOr_def updateRejected_def
  articleIds_def tagIdsOf_def userIds_def categoryIds_def categoryMissing_def createArticle_def
  insertArticleRow_def newArticleRow_def orNull_def orDefault_def createUser_def newUserRow_def
  getUser_def getUserByUsername_def getUserByEmail_def firstRow_def

lemmas route_defs = requireAuth_def insertArticleSchema_parse_def
  insertArticleSchema_issues_def insertUserSchema_parse_def insertUserSchema_issues_def
  zString_def zStringOptional_def zStringNullish_def optionalString_def nullishString_def
  issue_def expectedString_def kindName_def articleData_def

lemmas any_defs = updateArticleAny_def updateArticleRowAny_def setArticleAny_def setRejected_def
  nullGiven_def builderThrows_def intColumn_def intParam_def textColumn_def textParam_def
  assign_def INT4_MAX_def INT4_MIN_def createArticleAny_def insertTagsOf_def
  insertArticleTagsAny_def tagRows_def lengthPositive_def greaterThanZero_def truthy_def

section \<open>Facts about the single statements\<close>

lemma articles_insertArticleTags:
  "insertArticleTags e k vals d = Inr d' \<Longrightarrow> articles d' = articles d"
  by (auto simp: insertArticleTags_def Let_def split: if_splits)

lemma articleTags_insertArticleTags:
  "insertArticleTags e k vals d = Inr d' \<Longrightarrow>
     articleTags d' = articleTags d @ newArticleTagRows e k vals"
  by (auto simp: insertArticleTags_def Let_def split: if_splits)

lemma others_insertArticleTags:
  "insertArticleTags e k vals d = Inr d' \<Longrightarrow>
     users d' = users d \<and> categories d' = categories d \<and> tags d' = tags d"
  by (auto simp: insertArticleTags_def Let_def split: if_splits)

lemma art_id_setArticle: "art_id (setArticle e u p a) = art_id a"
  by (simp add: setArticle_def)

lemma publishedAt_setArticle:
  "publishedAt (setArticle e u p a) = (case p of None \<Rightarrow> publishedAt a | Some t \<Rightarrow> Some t)"
  by (simp add: setArticle_def)

lemma articles_updateArticle:
  "articles (snd (updateArticle e i u tagIds d)) =
     (if (\<exists>a \<in> set (articles d). art_id a = i) \<and> updateRejected u d then articles d
      else map (\<lambda>a. if art_id a = i
                     then setArticle e u
                            (if upd_status u = Some ''published'' then Some (clock e) else None) a
                     else a) (articles d))"
  by (auto simp: updateArticle_def updateArticleRow_def Let_def deleteArticleTagsOf_def
        filter_empty_conv
      dest!: articles_insertArticleTags
      split: sum.splits prod.splits option.splits if_splits)

lemma newArticleTagRows_same_article:
  "map at_tagId (newArticleTagRows e k (map (\<lambda>tagId. (i, tagId)) ts)) = ts
   \<and> filter (\<lambda>l. at_articleId l = i) (newArticleTagRows e k (map (\<lambda>tagId. (i, tagId)) ts))
       = newArticleTagRows e k (map (\<lambda>tagId. (i, tagId)) ts)"
  by (induction ts arbitrary: k) (simp_all add: newArticleTagRows_def)

lemma insertArticleRow_Inr:
  "insertArticleRow e v pub d = Inr (a, d1) \<Longrightarrow>
     a = newArticleRow e v pub \<and> d1 = d\<lparr>articles := articles d @ [a]\<rparr>
     \<and> art_id a \<notin> set (articleIds d)"
  by (auto simp: insertArticleRow_def Let_def split: if_splits)


lemma list_all2_map_same:
  "list_all2 P xs (map f xs) = (\<forall>x \<in> set xs. P x (f x))"
  by (simp add: list_all2_map2 list_all2_same)

lemma incrementArticleViews_Inr:
  "incrementArticleViews i d = (Inr u, d') \<Longrightarrow>
     d' = d\<lparr>articles := map (\<lambda>a. if art_id a = i then a\<lparr>views := views a + 1\<rparr> else a)
                            (articles d)\<rparr>"
  by (auto simp: incrementArticleViews_def split: if_splits)

lemma incrementArticleViewsTimes_Inr:
  "incrementArticleViewsTimes n i d = (Inr u, d') \<Longrightarrow>
     d' = d\<lparr>articles := map (\<lambda>a. if art_id a = i then a\<lparr>views := views a + int n\<rparr> else a)
                            (articles d)\<rparr>"
proof (induction n arbitrary: d)
  case 0
  then show ?case by (simp add: map_idI)
next
  case (Suc n)
  from Suc.prems obtain d1 where one: "incrementArticleViews i d = (Inr (), d1)"
    and rest: "incrementArticleViewsTimes n i d1 = (Inr u, d')"
    by (auto split: prod.splits sum.splits)
  note d1 = incrementArticleViews_Inr [OF one]
  have "d' = d1\<lparr>articles := map (\<lambda>a. if art_id a = i then a\<lparr>views := views a + int n\<rparr> else a)
                            (articles d1)\<rparr>"
    by (rule Suc.IH [OF rest])
  also have "\<dots> = d\<lparr>articles := map (\<lambda>a. if art_id a = i then a\<lparr>views := views a + int (Suc n)\<rparr> else a)
                            (articles d)\<rparr>"
    by (subst d1, subst d1) (simp add: comp_def if_distrib add.assoc add.commute cong: if_cong)
  finally show ?case .
qed


section \<open>Which statements the database accepts\<close>

lemma at_id_newArticleTagRows:
  "map at_id (newArticleTagRows e k0 vals) = map (uuid e) [k0..<k0 + length vals]"
proof -
  have "at_id \<circ> (\<lambda>(k, (a, t)). \<lparr>at_id = uuid e k, at_articleId = a, at_tagId = t\<rparr>)
      = uuid e \<circ> fst"
    by (auto simp: fun_eq_iff)
  then have "map at_id (newArticleTagRows e k0 vals) = map (uuid e \<circ> fst) (enumerate k0 vals)"
    by (simp add: newArticleTagRows_def)
  also have "\<dots> = map (uuid e) (map fst (enumerate k0 vals))"
    by (simp only: map_map)
  also have "\<dots> = map (uuid e) [k0..<k0 + length vals]"
    by (simp only: map_fst_enumerate)
  finally show ?thesis .
qed

lemma at_articleId_newArticleTagRows:
  "map at_articleId (newArticleTagRows e k (map (\<lambda>tagId. (a, tagId)) ts)) = replicate (length ts) a"
  by (induction ts arbitrary: k) (simp_all add: newArticleTagRows_def)

lemma at_tagId_newArticleTagRows:
  "map at_tagId (newArticleTagRows e k (map (\<lambda>tagId. (a, tagId)) ts)) = ts"
  by (induction ts arbitrary: k) (simp_all add: newArticleTagRows_def)

lemma ex_set_map: "(\<exists>r \<in> set rows. P (f r)) \<longleftrightarrow> (\<exists>x \<in> set (map f rows). P x)"
  by auto

lemma insertArticleTags_outcome:
  "insertArticleTags e k0 (map (\<lambda>tagId. (a, tagId)) ts) d =
     (if linksRejected e k0 a ts d
      then Inl (if linkIdsTaken e k0 (length ts) (articleTags d) then UniqueViolation
                else ForeignKeyViolation)
      else Inr (d\<lparr>articleTags :=
                   articleTags d @ newArticleTagRows e k0 (map (\<lambda>tagId. (a, tagId)) ts)\<rparr>))"
proof -
  let ?rows = "newArticleTagRows e k0 (map (\<lambda>tagId. (a, tagId)) ts)"
  have ids: "map at_id ?rows = map (uuid e) [k0..<k0 + length ts]"
    by (simp add: at_id_newArticleTagRows)
  have 1: "(\<not> distinct (map at_id ?rows)
         \<or> (\<exists>r \<in> set ?rows. at_id r \<in> set (map at_id (articleTags d))))
        \<longleftrightarrow> linkIdsTaken e k0 (length ts) (articleTags d)"
    unfolding ex_set_map [of ?rows "\<lambda>x. x \<in> set (map at_id (articleTags d))" at_id] ids
    by (auto simp: linkIdsTaken_def)
  have 2: "(\<exists>r \<in> set ?rows. at_articleId r \<notin> set (articleIds d))
        \<longleftrightarrow> ts \<noteq> [] \<and> a \<notin> set (articleIds d)"
    unfolding ex_set_map [of ?rows "\<lambda>x. x \<notin> set (articleIds d)" at_articleId]
      at_articleId_newArticleTagRows
    by auto
  have 3: "(\<exists>r \<in> set ?rows. at_tagId r \<notin> set (tagIdsOf d))
        \<longleftrightarrow> \<not> set ts \<subseteq> set (tagIdsOf d)"
    unfolding ex_set_map [of ?rows "\<lambda>x. x \<notin> set (tagIdsOf d)" at_tagId]
      at_tagId_newArticleTagRows
    by auto
  have empty: "linkIdsTaken e k0 (length ts) (articleTags d) \<Longrightarrow> ts \<noteq> []"
    by (auto simp: linkIdsTaken_def)
  show ?thesis
    unfolding insertArticleTags_def Let_def 1 2 3 linksRejected_def
    using empty by auto
qed

lemma updateArticleRow_outcome:
  "updateArticleRow e i u pub d =
     (if i \<in> set (articleIds d) \<and> updateRejected u d then Inl ForeignKeyViolation
      else Inr (map (setArticle e u pub) (filter (\<lambda>a. art_id a = i) (articles d)),
                d\<lparr>articles := map (\<lambda>a. if art_id a = i then setArticle e u pub a else a)
                                 (articles d)\<rparr>))"
  by (auto simp: updateArticleRow_def Let_def articleIds_def filter_empty_conv)

lemma linksRejected_cong:
  "articleTags d2 = articleTags d1 \<Longrightarrow> articleIds d2 = articleIds d1
     \<Longrightarrow> tagIdsOf d2 = tagIdsOf d1
     \<Longrightarrow> linksRejected e k a ts d2 = linksRejected e k a ts d1"
  by (simp add: linksRejected_def)


lemma insertArticleRow_outcome:
  "insertArticleRow e v pub d =
     (if art_id (newArticleRow e v pub) \<in> set (articleIds d)
         \<or> authorId (newArticleRow e v pub) \<notin> set (userIds d)
         \<or> categoryMissing d (categoryId (newArticleRow e v pub))
      then Inl (if art_id (newArticleRow e v pub) \<in> set (articleIds d)
                then UniqueViolation else ForeignKeyViolation)
      else Inr (newArticleRow e v pub, d\<lparr>articles := articles d @ [newArticleRow e v pub]\<rparr>))"
  by (simp add: insertArticleRow_def Let_def)


section \<open>The example store under the statements\<close>

lemma ex_updateArticleRow_noChange:
  "updateArticleRow exEnv ''a1'' noChange None exDb
     = Inr ([exHello\<lparr>updatedAt := 50\<rparr>], exDb\<lparr>articles := [exHello\<lparr>updatedAt := 50\<rparr>]\<rparr>)"
  by (simp add: updateArticleRow_def setArticle_def setOr_def updateRejected_def ex_defs)

lemma ex_deleteArticleTagsOf:
  "deleteArticleTagsOf ''a1'' (exDb\<lparr>articles := as\<rparr>) = exDb\<lparr>articles := as, articleTags := []\<rparr>"
  by (simp add: deleteArticleTagsOf_def ex_defs)

lemma ex_insertArticleTags:
  "insertArticleTags exEnv 0 [(''a1'', ''t2''), (''a1'', ''t1'')]
       (exDb\<lparr>articles := [exHello\<lparr>updatedAt := 50\<rparr>], articleTags := []\<rparr>)
   = Inr (exDb\<lparr>articles := [exHello\<lparr>updatedAt := 50\<rparr>],
               articleTags := [\<lparr>at_id = ''n'', at_articleId = ''a1'', at_tagId = ''t2''\<rparr>,
                               \<lparr>at_id = ''nn'', at_articleId = ''a1'', at_tagId = ''t1''\<rparr>]\<rparr>)"
  by (simp add: insertArticleTags_def newArticleTagRows_def articleIds_def tagIdsOf_def ex_defs)

lemma ex_updateArticle_retag:
  "updateArticle exEnv ''a1'' noChange (Some [''t2'', ''t1'']) exDb
     = (Inr (Some (exHello\<lparr>updatedAt := 50\<rparr>)),
        exDb\<lparr>articles := [exHello\<lparr>updatedAt := 50\<rparr>],
             articleTags := [\<lparr>at_id = ''n'', at_articleId = ''a1'', at_tagId = ''t2''\<rparr>,
                             \<lparr>at_id = ''nn'', at_articleId = ''a1'', at_tagId = ''t1''\<rparr>]\<rparr>)"
proof -
  have "upd_status noChange = None"
    by (simp add: noChange_def)
  then show ?thesis
    by (simp add: updateArticle_def ex_updateArticleRow_noChange ex_deleteArticleTagsOf
        ex_insertArticleTags)
qed

section \<open>Publishing stamps the article on every update that carries the status\<close>

text \<open>
  Claim C1. Whenever \<open>updateArticle\<close> is called with \<open>status = "published"\<close> among the
  fields and the database accepts the row update, every stored row with that id ends with
  \<open>publishedAt\<close> equal to the clock of this call, whatever its status and \<open>publishedAt\<close>
  were before (so an already published article is stamped again); no row is added or
  removed, and a call that returns normally on an existing article returns a row carrying
  that stamp. The tag statements that follow do not touch the row, also when they throw.
\<close>

theorem updateArticle_published_restamps:
  assumes pub: "upd_status u = Some ''published''"
    and acc: "\<not> updateRejected u d"
    and run: "updateArticle e i u tagIds d = (res, d')"
  shows "(\<forall>a' \<in> set (articles d'). art_id a' = i \<longrightarrow> publishedAt a' = Some (clock e))
       \<and> map art_id (articles d') = map art_id (articles d)
       \<and> (\<forall>r. res = Inr r \<longrightarrow> i \<in> set (articleIds d) \<longrightarrow>
              (\<exists>a'. r = Some a' \<and> art_id a' = i \<and> publishedAt a' = Some (clock e)))"
proof -
  have d': "articles d' =
      map (\<lambda>a. if art_id a = i then setArticle e u (Some (clock e)) a else a) (articles d)"
    using articles_updateArticle [of e i u tagIds d] pub acc run by simp
  have st: "publishedAt (setArticle e u (Some t) a) = Some t" for t a
    by (simp add: setArticle_def)
  have 1: "\<forall>a' \<in> set (articles d'). art_id a' = i \<longrightarrow> publishedAt a' = Some (clock e)"
  proof (intro ballI impI)
    fix a'
    assume mem: "a' \<in> set (articles d')" and id: "art_id a' = i"
    from mem obtain a where a: "a \<in> set (articles d)"
      and a': "a' = (if art_id a = i then setArticle e u (Some (clock e)) a else a)"
      unfolding d' by auto
    show "publishedAt a' = Some (clock e)"
    proof (cases "art_id a = i")
      case True
      with a' show ?thesis by (simp add: st)
    next
      case False
      with a' id show ?thesis by simp
    qed
  qed
  have 2: "map art_id (articles d') = map art_id (articles d)"
    unfolding d' by (simp add: art_id_setArticle cong: map_cong)
  have 3: "\<exists>a'. r = Some a' \<and> art_id a' = i \<and> publishedAt a' = Some (clock e)"
    if "res = Inr r" "i \<in> set (articleIds d)" for r
  proof -
    from that(2) obtain a where a: "a \<in> set (articles d)" "art_id a = i"
      by (auto simp: articleIds_def)
    then have ne: "filter (\<lambda>a. art_id a = i) (articles d) \<noteq> []"
      by (auto simp: filter_empty_conv)
    then obtain b bs where b: "filter (\<lambda>a. art_id a = i) (articles d) = b # bs"
      by (cases "filter (\<lambda>a. art_id a = i) (articles d)") auto
    have "b \<in> set (filter (\<lambda>a. art_id a = i) (articles d))"
      by (simp add: b)
    then have bi: "art_id b = i"
      by simp
    from run that(1) pub acc b have "r = Some (setArticle e u (Some (clock e)) b)"
      by (auto simp: updateArticle_def updateArticleRow_def Let_def
          split: sum.splits prod.splits option.splits if_splits)
    then show ?thesis using bi by (simp add: art_id_setArticle st)
  qed
  from 1 2 3 show ?thesis by blast
qed

text \<open>
  The example article was published at time 10; a further update carrying
  \<open>status = "published"\<close> at time 50 moves the stamp to 50.
\<close>

theorem updateArticle_published_restamps_witness:
  "upd_status (noChange\<lparr>upd_status := Some ''published''\<rparr>) = Some ''published''
   \<and> \<not> updateRejected (noChange\<lparr>upd_status := Some ''published''\<rparr>) exDb
   \<and> map publishedAt (articles exDb) = [Some 10]
   \<and> map publishedAt
       (articles (snd (updateArticle exEnv ''a1'' (noChange\<lparr>upd_status := Some ''published''\<rparr>)
                         None exDb))) = [Some 50]"
proof -
  let ?u = "noChange\<lparr>upd_status := Some ''published''\<rparr>"
  obtain res d' where run: "updateArticle exEnv ''a1'' ?u None exDb = (res, d')"
    by (cases "updateArticle exEnv ''a1'' ?u None exDb")
  have pub: "upd_status ?u = Some ''published''"
    by simp
  have acc: "\<not> updateRejected ?u exDb"
    by (simp add: updateRejected_def ex_defs)
  have ids: "map art_id (articles exDb) = [''a1'']"
    by (simp add: ex_defs)
  from updateArticle_published_restamps [OF pub acc run] ids
  have "map art_id (articles d') = [''a1'']"
    and "\<forall>a' \<in> set (articles d'). art_id a' = ''a1'' \<longrightarrow> publishedAt a' = Some (clock exEnv)"
    by simp_all
  then have "map publishedAt (articles d') = [Some 50]"
    by (cases "articles d'") (auto simp: exEnv_def)
  moreover have "map publishedAt (articles exDb) = [Some 10]"
    by (simp add: ex_defs)
  ultimately show ?thesis using pub acc run by simp
qed

section \<open>Tag links are kept when tagIds is omitted and replaced when it is given\<close>

text \<open>
  Claim C2, as the code has it. With \<open>tagIds\<close> omitted, \<open>updateArticle\<close> leaves the link
  rows exactly as they were, whatever else the call does. With \<open>tagIds\<close> given there are
  three outcomes. When the database rejects the row update, the call throws and nothing is
  changed, so the links stay. Otherwise the links of the article are deleted first. When
  the database then accepts the insert (always so for the empty list), the call returns,
  the link table is the old one without the rows of this article followed by one new row
  per element of the list, in order, each with a generated id, this article and that tag,
  and the tag ids linked to the article are exactly the list given. When the database rejects the insert (an id that names no tag, no article
  with this id, or a clash of generated row ids), the call throws and the article is left
  without any link.
\<close>

theorem updateArticle_tag_outcomes:
  assumes run: "updateArticle e i u tagIds d = (res, d')"
  shows "(tagIds = None \<longrightarrow> articleTags d' = articleTags d)
       \<and> (tagIds = Some ts \<longrightarrow>
            (if i \<in> set (articleIds d) \<and> updateRejected u d
             then res = Inl ForeignKeyViolation \<and> d' = d
             else if linksRejected e 0 i ts (deleteArticleTagsOf i d)
             then (\<exists>err. res = Inl err)
                \<and> articleTags d' = filter (\<lambda>l. at_articleId l \<noteq> i) (articleTags d)
             else (\<exists>r. res = Inr r)
                \<and> (\<exists>new. articleTags d' =
                            filter (\<lambda>l. at_articleId l \<noteq> i) (articleTags d) @ new
                         \<and> map at_id new = map (uuid e) [0..<length ts]
                         \<and> map at_articleId new = replicate (length ts) i
                         \<and> map at_tagId new = ts)
                \<and> map at_tagId (filter (\<lambda>l. at_articleId l = i) (articleTags d')) = ts))"
proof -
  let ?pub = "if upd_status u = Some ''published'' then Some (clock e) else None"
  let ?d1 = "d\<lparr>articles := map (\<lambda>a. if art_id a = i then setArticle e u ?pub a else a)
                                 (articles d)\<rparr>"
  let ?new = "newArticleTagRows e 0 (map (\<lambda>tagId. (i, tagId)) ts)"
  have none: "articleTags d' = articleTags d" if "tagIds = None"
    using run that
    by (auto simp: updateArticle_def updateArticleRow_def Let_def
        split: sum.splits prod.splits if_splits)
  have rej: "res = Inl ForeignKeyViolation \<and> d' = d"
    if "i \<in> set (articleIds d) \<and> updateRejected u d"
    using run that by (auto simp: updateArticle_def updateArticleRow_outcome)
  have ids: "articleIds ?d1 = articleIds d"
    by (simp add: articleIds_def art_id_setArticle cong: map_cong)
  have same: "linksRejected e 0 i ts (deleteArticleTagsOf i ?d1)
      = linksRejected e 0 i ts (deleteArticleTagsOf i d)"
    by (rule linksRejected_cong)
      (simp_all add: deleteArticleTagsOf_def articleIds_def tagIdsOf_def art_id_setArticle
        cong: map_cong)
  have acc: "(if linksRejected e 0 i ts (deleteArticleTagsOf i d)
              then \<exists>err. res = Inl err else \<exists>r. res = Inr r)
           \<and> articleTags d' = filter (\<lambda>l. at_articleId l \<noteq> i) (articleTags d)
                @ (if linksRejected e 0 i ts (deleteArticleTagsOf i d) then [] else ?new)"
    if some: "tagIds = Some ts" and ok: "\<not> (i \<in> set (articleIds d) \<and> updateRejected u d)"
  proof (cases "ts = []")
    case True
    with run some ok show ?thesis
      by (auto simp: updateArticle_def updateArticleRow_outcome Let_def deleteArticleTagsOf_def
          linksRejected_def newArticleTagRows_def split: list.splits)
  next
    case False
    with run some ok same show ?thesis
      by (auto simp: updateArticle_def updateArticleRow_outcome Let_def
          insertArticleTags_outcome deleteArticleTagsOf_def split: list.splits)
  qed
  have tags: "map at_tagId (filter (\<lambda>l. at_articleId l = i)
      (filter (\<lambda>l. at_articleId l \<noteq> i) (articleTags d) @ ?new)) = ts"
    using newArticleTagRows_same_article [of e 0 i ts] by (simp add: filter_empty_conv)
  show ?thesis
  proof (intro conjI impI)
    assume "tagIds = None"
    then show "articleTags d' = articleTags d" by (rule none)
  next
    assume some: "tagIds = Some ts"
    show "if i \<in> set (articleIds d) \<and> updateRejected u d
             then res = Inl ForeignKeyViolation \<and> d' = d
             else if linksRejected e 0 i ts (deleteArticleTagsOf i d)
             then (\<exists>err. res = Inl err)
                \<and> articleTags d' = filter (\<lambda>l. at_articleId l \<noteq> i) (articleTags d)
             else (\<exists>r. res = Inr r)
                \<and> (\<exists>new. articleTags d' =
                            filter (\<lambda>l. at_articleId l \<noteq> i) (articleTags d) @ new
                         \<and> map at_id new = map (uuid e) [0..<length ts]
                         \<and> map at_articleId new = replicate (length ts) i
                         \<and> map at_tagId new = ts)
                \<and> map at_tagId (filter (\<lambda>l. at_articleId l = i) (articleTags d')) = ts"
    proof (cases "i \<in> set (articleIds d) \<and> updateRejected u d")
      case True
      show ?thesis
        unfolding if_P [OF True] by (rule rej [OF True])
    next
      case False
      note a = acc [OF some False]
      show ?thesis
        unfolding if_not_P [OF False]
      proof (cases "linksRejected e 0 i ts (deleteArticleTagsOf i d)")
        case True
        from a show "if linksRejected e 0 i ts (deleteArticleTagsOf i d)
             then (\<exists>err. res = Inl err)
                \<and> articleTags d' = filter (\<lambda>l. at_articleId l \<noteq> i) (articleTags d)
             else (\<exists>r. res = Inr r)
                \<and> (\<exists>new. articleTags d' =
                            filter (\<lambda>l. at_articleId l \<noteq> i) (articleTags d) @ new
                         \<and> map at_id new = map (uuid e) [0..<length ts]
                         \<and> map at_articleId new = replicate (length ts) i
                         \<and> map at_tagId new = ts)
                \<and> map at_tagId (filter (\<lambda>l. at_articleId l = i) (articleTags d')) = ts"
          unfolding if_P [OF True] by simp
      next
        case no: False
        from a have d': "articleTags d' =
            filter (\<lambda>l. at_articleId l \<noteq> i) (articleTags d) @ ?new"
          and r: "\<exists>r. res = Inr r"
          unfolding if_not_P [OF no] by simp_all
        from tags d' have t: "map at_tagId (filter (\<lambda>l. at_articleId l = i) (articleTags d')) = ts"
          by simp
        have n: "\<exists>new. articleTags d' =
                            filter (\<lambda>l. at_articleId l \<noteq> i) (articleTags d) @ new
                         \<and> map at_id new = map (uuid e) [0..<length ts]
                         \<and> map at_articleId new = replicate (length ts) i
                         \<and> map at_tagId new = ts"
        proof (intro exI conjI)
          show "articleTags d' = filter (\<lambda>l. at_articleId l \<noteq> i) (articleTags d) @ ?new"
            by (rule d')
          show "map at_id ?new = map (uuid e) [0..<length ts]"
            using at_id_newArticleTagRows [of e 0 "map (\<lambda>tagId. (i, tagId)) ts"] by simp
          show "map at_articleId ?new = replicate (length ts) i"
            by (rule at_articleId_newArticleTagRows)
          show "map at_tagId ?new = ts"
            by (rule at_tagId_newArticleTagRows)
        qed
        from r n t show "if linksRejected e 0 i ts (deleteArticleTagsOf i d)
             then (\<exists>err. res = Inl err)
                \<and> articleTags d' = filter (\<lambda>l. at_articleId l \<noteq> i) (articleTags d)
             else (\<exists>r. res = Inr r)
                \<and> (\<exists>new. articleTags d' =
                            filter (\<lambda>l. at_articleId l \<noteq> i) (articleTags d) @ new
                         \<and> map at_id new = map (uuid e) [0..<length ts]
                         \<and> map at_articleId new = replicate (length ts) i
                         \<and> map at_tagId new = ts)
                \<and> map at_tagId (filter (\<lambda>l. at_articleId l = i) (articleTags d')) = ts"
          unfolding if_not_P [OF no] by - (intro conjI; assumption)
      qed
    qed
  qed
qed

text \<open>
  Claim C2, as stated, at a concrete call: the example article carries the tag \<open>t1\<close>;
  updating it with \<open>tagIds = ["t2", "nope"]\<close>, where \<open>nope\<close> names no tag, throws, and the
  article ends with no link at all, not with the two tags given.
\<close>

theorem updateArticle_tag_replacement_counterexample:
  "map at_tagId (filter (\<lambda>l. at_articleId l = ''a1'') (articleTags exDb)) = [''t1'']
   \<and> updateArticle exEnv ''a1'' noChange (Some [''t2'', ''nope'']) exDb
       = (Inl ForeignKeyViolation,
          exDb\<lparr>articles := [exHello\<lparr>updatedAt := 50\<rparr>], articleTags := []\<rparr>)
   \<and> map at_tagId (filter (\<lambda>l. at_articleId l = ''a1'')
        (articleTags (exDb\<lparr>articles := [exHello\<lparr>updatedAt := 50\<rparr>], articleTags := []\<rparr>)))
       \<noteq> [''t2'', ''nope'']"
  by (simp add: storage_defs ex_defs Let_def del: set_filter)


text \<open>
  On the example store: without \<open>tagIds\<close> the one link stays; with
  \<open>tagIds = ["t2", "t1"]\<close> the call returns the row and the article is linked to
  exactly these two tags, in this order; with \<open>tagIds = ["t2", "nope"]\<close> the call throws
  and the article has no link left.
\<close>

theorem updateArticle_tag_outcomes_witness:
  "articleTags exDb = [\<lparr>at_id = ''l1'', at_articleId = ''a1'', at_tagId = ''t1''\<rparr>]
   \<and> articleTags (snd (updateArticle exEnv ''a1'' noChange None exDb)) = articleTags exDb
   \<and> fst (updateArticle exEnv ''a1'' noChange (Some [''t2'', ''t1'']) exDb)
       = Inr (Some (exHello\<lparr>updatedAt := 50\<rparr>))
   \<and> map at_tagId (filter (\<lambda>l. at_articleId l = ''a1'')
        (articleTags (snd (updateArticle exEnv ''a1'' noChange (Some [''t2'', ''t1'']) exDb))))
       = [''t2'', ''t1'']
   \<and> (\<exists>err. fst (updateArticle exEnv ''a1'' noChange (Some [''t2'', ''nope'']) exDb) = Inl err)
   \<and> articleTags (snd (updateArticle exEnv ''a1'' noChange (Some [''t2'', ''nope'']) exDb)) = []"
proof -
  obtain r0 d0 where run0: "updateArticle exEnv ''a1'' noChange None exDb = (r0, d0)"
    by (cases "updateArticle exEnv ''a1'' noChange None exDb")
  obtain r1 d1 where run1:
    "updateArticle exEnv ''a1'' noChange (Some [''t2'', ''t1'']) exDb = (r1, d1)"
    by (cases "updateArticle exEnv ''a1'' noChange (Some [''t2'', ''t1'']) exDb")
  obtain r2 d2 where run2:
    "updateArticle exEnv ''a1'' noChange (Some [''t2'', ''nope'']) exDb = (r2, d2)"
    by (cases "updateArticle exEnv ''a1'' noChange (Some [''t2'', ''nope'']) exDb")
  have acc: "\<not> (''a1'' \<in> set (articleIds exDb) \<and> updateRejected noChange exDb)"
    by (simp add: updateRejected_def noChange_def)
  have ok: "\<not> linksRejected exEnv 0 ''a1'' [''t2'', ''t1''] (deleteArticleTagsOf ''a1'' exDb)"
    by (simp add: linksRejected_def linkIdsTaken_def deleteArticleTagsOf_def articleIds_def
        tagIdsOf_def upt_rec ex_defs)
  have bad: "linksRejected exEnv 0 ''a1'' [''t2'', ''nope''] (deleteArticleTagsOf ''a1'' exDb)"
    by (simp add: linksRejected_def linkIdsTaken_def deleteArticleTagsOf_def articleIds_def
        tagIdsOf_def upt_rec ex_defs)
  have old: "articleTags exDb = [\<lparr>at_id = ''l1'', at_articleId = ''a1'', at_tagId = ''t1''\<rparr>]"
    by (simp add: exDb_def)
  from updateArticle_tag_outcomes [OF run0, of "[]"]
  have k0: "articleTags d0 = articleTags exDb"
    by simp
  note t1 = updateArticle_tag_outcomes [OF run1, of "[''t2'', ''t1'']", THEN conjunct2, THEN mp,
      OF refl, unfolded if_not_P [OF acc] if_not_P [OF ok]]
  note k1 = t1 [THEN conjunct2, THEN conjunct2]
  note t2 = updateArticle_tag_outcomes [OF run2, of "[''t2'', ''nope'']", THEN conjunct2, THEN mp,
      OF refl, unfolded if_not_P [OF acc] if_P [OF bad]]
  from t2
  have k2: "\<exists>err. r2 = Inl err"
    and k3: "articleTags d2 = filter (\<lambda>l. at_articleId l \<noteq> ''a1'') (articleTags exDb)"
    by blast+
  from k3 old have k4: "articleTags d2 = []"
    by simp
  have r1: "r1 = Inr (Some (exHello\<lparr>updatedAt := 50\<rparr>))"
    using run1 ex_updateArticle_retag by simp
  from old k0 k1 k2 k4 r1 show ?thesis
    by (simp add: run0 run1 run2)
qed

section \<open>createArticle stores the row with its stamp and one link per tag id\<close>

text \<open>
  Claim C6, as the code has it. \<open>createArticle\<close> first inserts the row \<open>a\<close> built from the
  insert values: a fresh id, \<open>views = 0\<close>, \<open>status\<close> defaulting to draft, both timestamps
  from the database, and \<open>publishedAt\<close> equal to the clock of the call when \<open>status\<close> is
  \<open>"published"\<close> and \<open>null\<close> otherwise. When the database rejects that row (its id is
  taken, or its author or category does not exist) the call throws and nothing is stored.
  Otherwise the row is appended to the article table, and then: with \<open>tagIds\<close> omitted or
  empty, or with every new link accepted, the call returns the row (the bare \<open>article\<close>,
  which has no tag objects) and the link table has grown by exactly one row per element of
  the list, in order, each pointing at the new article; when the database rejects the
  links (an id that names no tag, or a clash of generated row ids), the call throws, the
  article row stays stored and no link is added.
\<close>

theorem createArticle_outcomes:
  assumes run: "createArticle e v tagIds d = (res, d')"
    and ts: "ts = (case tagIds of None \<Rightarrow> [] | Some xs \<Rightarrow> xs)"
    and a: "a = \<lparr>art_id = uuid e 0,
                 title = ins_title v,
                 content = ins_content v,
                 excerpt = (case ins_excerpt v of None \<Rightarrow> None | Some x \<Rightarrow> x),
                 coverImage = (case ins_coverImage v of None \<Rightarrow> None | Some x \<Rightarrow> x),
                 status = (case ins_status v of None \<Rightarrow> ''draft'' | Some s \<Rightarrow> s),
                 categoryId = (case ins_categoryId v of None \<Rightarrow> None | Some x \<Rightarrow> x),
                 authorId = ins_authorId v,
                 views = 0,
                 createdAt = dbNow e,
                 updatedAt = dbNow e,
                 publishedAt = (if ins_status v = Some ''published'' then Some (clock e)
                                else None)\<rparr>"
  shows "if art_id a \<in> set (articleIds d) \<or> authorId a \<notin> set (userIds d)
            \<or> (\<exists>c. categoryId a = Some c \<and> c \<notin> set (categoryIds d))
         then (\<exists>err. res = Inl err) \<and> d' = d
         else articles d' = articles d @ [a]
            \<and> users d' = users d \<and> categories d' = categories d \<and> tags d' = tags d
            \<and> (if ts \<noteq> []
                     \<and> (linkIdsTaken e 1 (length ts) (articleTags d)
                        \<or> \<not> set ts \<subseteq> set (tagIdsOf d))
                then (\<exists>err. res = Inl err) \<and> articleTags d' = articleTags d
                else res = Inr a
                   \<and> (\<exists>new. articleTags d' = articleTags d @ new
                         \<and> map at_tagId new = ts
                         \<and> map at_articleId new = replicate (length ts) (art_id a)))"
proof -
  let ?pub = "if ins_status v = Some ''published'' then Some (clock e) else None"
  have row: "newArticleRow e v ?pub = a"
    unfolding a by (simp add: newArticleRow_def orNull_def orDefault_def)
  let ?rowRejected = "art_id a \<in> set (articleIds d) \<or> authorId a \<notin> set (userIds d)
            \<or> (\<exists>c. categoryId a = Some c \<and> c \<notin> set (categoryIds d))"
  let ?d1 = "d\<lparr>articles := articles d @ [a]\<rparr>"
  let ?linksBad = "ts \<noteq> [] \<and> (linkIdsTaken e 1 (length ts) (articleTags d)
                        \<or> \<not> set ts \<subseteq> set (tagIdsOf d))"
  let ?new = "newArticleTagRows e 1 (map (\<lambda>tagId. (art_id a, tagId)) ts)"
  have cm: "categoryMissing d (categoryId a) \<longleftrightarrow> (\<exists>c. categoryId a = Some c \<and> c \<notin> set (categoryIds d))"
    by (simp add: categoryMissing_def split: option.splits)
  have ins: "insertArticleRow e v ?pub d =
      (if ?rowRejected
       then Inl (if art_id a \<in> set (articleIds d) then UniqueViolation else ForeignKeyViolation)
       else Inr (a, ?d1))"
    unfolding insertArticleRow_outcome row cm ..
  have lr: "linksRejected e 1 (art_id a) ts ?d1 \<longleftrightarrow> ?linksBad"
    by (simp add: linksRejected_def articleIds_def tagIdsOf_def)
  have rejected: "(\<exists>err. res = Inl err) \<and> d' = d" if rr: ?rowRejected
  proof -
    have "insertArticleRow e v ?pub d =
        Inl (if art_id a \<in> set (articleIds d) then UniqueViolation else ForeignKeyViolation)"
      unfolding ins if_P [OF rr] ..
    with run show ?thesis
      by (auto simp: createArticle_def)
  qed
  have stored: "(if ?linksBad then (\<exists>err. res = Inl err) \<and> d' = ?d1
                 else res = Inr a \<and> d' = ?d1\<lparr>articleTags := articleTags d @ ?new\<rparr>)"
    if ok: "\<not> ?rowRejected"
  proof -
    have ins': "insertArticleRow e v ?pub d = Inr (a, ?d1)"
      unfolding ins if_not_P [OF ok] ..
    show ?thesis
    proof (cases "ts = []")
      case True
      with run ts show ?thesis
        by (auto simp: createArticle_def ins' newArticleTagRows_def split: option.splits)
    next
      case False
      with ts obtain xs where some: "tagIds = Some xs" and xs: "xs = ts"
        by (cases tagIds) auto
      from run False show ?thesis
        unfolding some xs
        by (auto simp: createArticle_def ins' insertArticleTags_outcome lr
            simp del: One_nat_def split: if_splits)
    qed
  qed
  show ?thesis
  proof (cases ?rowRejected)
    case True
    show ?thesis
      unfolding if_P [OF True] by (rule rejected [OF True])
  next
    case False
    note st = stored [OF False]
    show ?thesis
      unfolding if_not_P [OF False]
    proof (cases ?linksBad)
      case True
      from st have "(\<exists>err. res = Inl err) \<and> d' = ?d1"
        unfolding if_P [OF True] .
      then show "articles d' = articles d @ [a]
            \<and> users d' = users d \<and> categories d' = categories d \<and> tags d' = tags d
            \<and> (if ?linksBad
                then (\<exists>err. res = Inl err) \<and> articleTags d' = articleTags d
                else res = Inr a
                   \<and> (\<exists>new. articleTags d' = articleTags d @ new
                         \<and> map at_tagId new = ts
                         \<and> map at_articleId new = replicate (length ts) (art_id a)))"
        unfolding if_P [OF True] by simp
    next
      case no: False
      from st have r: "res = Inr a" and d': "d' = ?d1\<lparr>articleTags := articleTags d @ ?new\<rparr>"
        unfolding if_not_P [OF no] by simp_all
      have "articleTags d' = articleTags d @ ?new \<and> map at_tagId ?new = ts
          \<and> map at_articleId ?new = replicate (length ts) (art_id a)"
        by (simp add: d' at_tagId_newArticleTagRows at_articleId_newArticleTagRows)
      then have ex: "\<exists>new. articleTags d' = articleTags d @ new \<and> map at_tagId new = ts
          \<and> map at_articleId new = replicate (length ts) (art_id a)"
        by blast
      from r ex show "articles d' = articles d @ [a]
            \<and> users d' = users d \<and> categories d' = categories d \<and> tags d' = tags d
            \<and> (if ?linksBad
                then (\<exists>err. res = Inl err) \<and> articleTags d' = articleTags d
                else res = Inr a
                   \<and> (\<exists>new. articleTags d' = articleTags d @ new
                         \<and> map at_tagId new = ts
                         \<and> map at_articleId new = replicate (length ts) (art_id a)))"
        unfolding if_not_P [OF no] by (simp add: d')
    qed
  qed
qed


text \<open>
  Claim C6, as stated, at a concrete call: creating an article with
  \<open>tagIds = ["t1", "nope"]\<close>, where \<open>nope\<close> names no tag, stores the article row, inserts
  no link and throws instead of returning the row.
\<close>

theorem createArticle_row_and_links_counterexample:
  "createArticle exEnv exSecond (Some [''t1'', ''nope'']) exDb
     = (Inl ForeignKeyViolation,
        exDb\<lparr>articles := [exHello, newArticleRow exEnv exSecond (Some 50)]\<rparr>)
   \<and> articleTags (exDb\<lparr>articles := [exHello, newArticleRow exEnv exSecond (Some 50)]\<rparr>)
       = articleTags exDb"
  by (simp add: storage_defs ex_defs Let_def del: set_filter)

text \<open>
  On the example store: a published article with \<open>tagIds = ["t1", "t2"]\<close> is returned
  with the stamp 50, stored after the old article, and linked by two new rows.
\<close>

theorem createArticle_outcomes_witness:
  "fst (createArticle exEnv exSecond (Some [''t1'', ''t2'']) exDb)
     = Inr \<lparr>art_id = ''n'', title = ''Second'', content = ''Text'', excerpt = None,
            coverImage = None, status = ''published'', categoryId = Some ''c1'',
            authorId = ''u1'', views = 0, createdAt = 51, updatedAt = 51,
            publishedAt = Some 50\<rparr>
   \<and> map publishedAt (articles (snd (createArticle exEnv exSecond (Some [''t1'', ''t2'']) exDb)))
       = [Some 10, Some 50]
   \<and> map at_tagId (articleTags (snd (createArticle exEnv exSecond (Some [''t1'', ''t2'']) exDb)))
       = [''t1'', ''t1'', ''t2'']
   \<and> map at_articleId (articleTags (snd (createArticle exEnv exSecond (Some [''t1'', ''t2'']) exDb)))
       = [''a1'', ''n'', ''n'']"
proof -
  let ?a = "\<lparr>art_id = ''n'', title = ''Second'', content = ''Text'', excerpt = None,
            coverImage = None, status = ''published'', categoryId = Some ''c1'',
            authorId = ''u1'', views = 0, createdAt = 51, updatedAt = 51,
            publishedAt = Some 50\<rparr>"
  obtain res d' where run: "createArticle exEnv exSecond (Some [''t1'', ''t2'']) exDb = (res, d')"
    by (cases "createArticle exEnv exSecond (Some [''t1'', ''t2'']) exDb")
  have ts: "[''t1'', ''t2''] = (case Some [''t1'', ''t2''] of None \<Rightarrow> [] | Some xs \<Rightarrow> xs)"
    by simp
  have a: "?a = \<lparr>art_id = uuid exEnv 0,
                 title = ins_title exSecond,
                 content = ins_content exSecond,
                 excerpt = (case ins_excerpt exSecond of None \<Rightarrow> None | Some x \<Rightarrow> x),
                 coverImage = (case ins_coverImage exSecond of None \<Rightarrow> None | Some x \<Rightarrow> x),
                 status = (case ins_status exSecond of None \<Rightarrow> ''draft'' | Some s \<Rightarrow> s),
                 categoryId = (case ins_categoryId exSecond of None \<Rightarrow> None | Some x \<Rightarrow> x),
                 authorId = ins_authorId exSecond,
                 views = 0,
                 createdAt = dbNow exEnv,
                 updatedAt = dbNow exEnv,
                 publishedAt = (if ins_status exSecond = Some ''published''
                                then Some (clock exEnv) else None)\<rparr>"
    by (simp add: exSecond_def exEnv_def)
  have rowOk: "\<not> (art_id ?a \<in> set (articleIds exDb) \<or> authorId ?a \<notin> set (userIds exDb)
            \<or> (\<exists>c. categoryId ?a = Some c \<and> c \<notin> set (categoryIds exDb)))"
    by (simp add: articleIds_def userIds_def categoryIds_def ex_defs)
  have linksOk: "\<not> ([''t1'', ''t2''] \<noteq> []
                     \<and> (linkIdsTaken exEnv 1 (length [''t1'', ''t2'']) (articleTags exDb)
                        \<or> \<not> set [''t1'', ''t2''] \<subseteq> set (tagIdsOf exDb)))"
    by (simp add: linkIdsTaken_def tagIdsOf_def upt_conv_Cons ex_defs)
  note out = createArticle_outcomes [OF run ts a, unfolded if_not_P [OF rowOk] if_not_P [OF linksOk]]
  note arts = out [THEN conjunct1]
  note rest = out [THEN conjunct2, THEN conjunct2, THEN conjunct2, THEN conjunct2]
  note res = rest [THEN conjunct1]
  from rest [THEN conjunct2] obtain new where new: "articleTags d' = articleTags exDb @ new"
    "map at_tagId new = [''t1'', ''t2'']"
    "map at_articleId new = replicate (length [''t1'', ''t2'']) (art_id ?a)"
    by (elim exE conjE)
  from arts have pubs: "map publishedAt (articles d') = [Some 10, Some 50]"
    by (simp add: exDb_def exHello_def)
  from new have tags: "map at_tagId (articleTags d') = [''t1'', ''t1'', ''t2'']"
    and owners: "map at_articleId (articleTags d') = [''a1'', ''n'', ''n'']"
    by (simp_all add: exDb_def)
  from res pubs tags owners show ?thesis
    by (simp add: run)
qed

section \<open>incrementArticleViews adds exactly one\<close>

text \<open>
  Claim C7. \<open>incrementArticleViews\<close> is one statement computing \<open>views + 1\<close> on the stored
  value. It returns normally exactly when no article with the id sits at the top of the
  \<open>integer\<close> range. When it does, the article with the id has its \<open>views\<close> greater by
  one and every other column as before, every other article is as before, and so are the
  other tables. \<open>n\<close> calls in a row that return normally add exactly \<open>n\<close>: no call is
  merged with another.
\<close>

theorem incrementArticleViews_adds_one:
  "(fst (incrementArticleViews i d) = Inr () \<longleftrightarrow>
      (\<forall>a \<in> set (articles d). art_id a = i \<longrightarrow> views a < INT4_MAX))
   \<and> (incrementArticleViews i d = (Inr u, d1) \<longrightarrow>
        d1 = d\<lparr>articles := articles d1\<rparr>
        \<and> list_all2 (\<lambda>a a'. a' = (if art_id a = i then a\<lparr>views := views a + 1\<rparr> else a))
             (articles d) (articles d1))
   \<and> (incrementArticleViewsTimes n i d = (Inr u, d') \<longrightarrow>
        d' = d\<lparr>articles := articles d'\<rparr>
        \<and> list_all2 (\<lambda>a a'. a' = (if art_id a = i then a\<lparr>views := views a + int n\<rparr> else a))
             (articles d) (articles d'))"
proof -
  have ok: "fst (incrementArticleViews i d) = Inr () \<longleftrightarrow>
      (\<forall>a \<in> set (articles d). art_id a = i \<longrightarrow> views a < INT4_MAX)"
    by (auto simp: incrementArticleViews_def)
  have one: "d1 = d\<lparr>articles := articles d1\<rparr>
        \<and> list_all2 (\<lambda>a a'. a' = (if art_id a = i then a\<lparr>views := views a + 1\<rparr> else a))
             (articles d) (articles d1)"
    if "incrementArticleViews i d = (Inr u, d1)"
    by (subst (1 2 3) incrementArticleViews_Inr [OF that]) (simp add: list_all2_map_same)
  have many: "d' = d\<lparr>articles := articles d'\<rparr>
        \<and> list_all2 (\<lambda>a a'. a' = (if art_id a = i then a\<lparr>views := views a + int n\<rparr> else a))
             (articles d) (articles d')"
    if "incrementArticleViewsTimes n i d = (Inr u, d')"
    by (subst (1 2 3) incrementArticleViewsTimes_Inr [OF that]) (simp add: list_all2_map_same)
  from ok one many show ?thesis by blast
qed

text \<open>Three calls on the example article take its counter from 7 to 10.\<close>

theorem incrementArticleViews_adds_one_witness:
  "map views (articles exDb) = [7]
   \<and> fst (incrementArticleViewsTimes 3 ''a1'' exDb) = Inr ()
   \<and> map views (articles (snd (incrementArticleViewsTimes 3 ''a1'' exDb))) = [10]"
proof -
  obtain d' where run: "incrementArticleViewsTimes 3 ''a1'' exDb = (Inr (), d')"
    by (simp add: eval_nat_numeral incrementArticleViews_def INT4_MAX_def ex_defs)
  from incrementArticleViews_adds_one [of "''a1''" exDb "()" d' 3 d'] run
  have "list_all2 (\<lambda>a a'. a' = (if art_id a = ''a1'' then a\<lparr>views := views a + int 3\<rparr> else a))
             (articles exDb) (articles d')"
    by blast
  then have "articles d' = [exHello\<lparr>views := 10\<rparr>]"
    by (simp add: exDb_def exHello_def list_all2_Cons1)
  moreover have "map views (articles exDb) = [7]"
    by (simp add: exDb_def exHello_def)
  ultimately show ?thesis
    by (simp add: run)
qed

section \<open>updateArticle never clears publishedAt\<close>

text \<open>
  Claim C9. Whatever \<open>updateArticle\<close> is called with and however the call ends, the
  article table keeps its rows in place with their ids, a row that had a \<open>publishedAt\<close>
  still has one, and when the fields do not carry \<open>status = "published"\<close> (a missing
  status, \<open>"draft"\<close>, or anything else) every row's \<open>publishedAt\<close> is exactly what it was.
\<close>

theorem updateArticle_keeps_publishedAt:
  "list_all2
     (\<lambda>a a'. art_id a' = art_id a
        \<and> (publishedAt a \<noteq> None \<longrightarrow> publishedAt a' \<noteq> None)
        \<and> (upd_status u \<noteq> Some ''published'' \<longrightarrow> publishedAt a' = publishedAt a))
     (articles d) (articles (snd (updateArticle e i u tagIds d)))"
proof (cases "(\<exists>a \<in> set (articles d). art_id a = i) \<and> updateRejected u d")
  case True
  then have "articles (snd (updateArticle e i u tagIds d)) = articles d"
    by (simp add: articles_updateArticle)
  then show ?thesis
    by (simp add: list_all2_same)
next
  case False
  then have "articles (snd (updateArticle e i u tagIds d)) =
      map (\<lambda>a. if art_id a = i
                     then setArticle e u
                            (if upd_status u = Some ''published'' then Some (clock e) else None) a
                     else a) (articles d)"
    by (simp only: articles_updateArticle if_False)
  then show ?thesis
    by (simp add: list_all2_map_same art_id_setArticle publishedAt_setArticle)
qed

text \<open>
  Setting the published example article back to draft changes its status and leaves its
  \<open>publishedAt\<close> at 10.
\<close>

theorem updateArticle_keeps_publishedAt_witness:
  "map publishedAt (articles exDb) = [Some 10]
   \<and> map status
        (articles (snd (updateArticle exEnv ''a1'' (noChange\<lparr>upd_status := Some ''draft''\<rparr>) None exDb)))
       = [''draft'']
   \<and> map publishedAt
        (articles (snd (updateArticle exEnv ''a1'' (noChange\<lparr>upd_status := Some ''draft''\<rparr>) None exDb)))
       = [Some 10]"
proof -
  let ?u = "noChange\<lparr>upd_status := Some ''draft''\<rparr>"
  let ?d' = "snd (updateArticle exEnv ''a1'' ?u None exDb)"
  have st: "map status (articles ?d') = [''draft'']"
    by (simp add: storage_defs ex_defs Let_def del: set_filter)
  have u: "upd_status ?u \<noteq> Some ''published''"
    by simp
  have old: "articles exDb = [exHello]" "publishedAt exHello = Some 10"
    by (simp_all add: exDb_def exHello_def)
  have "list_all2 (\<lambda>a a'. publishedAt a' = publishedAt a) (articles exDb) (articles ?d')"
    by (rule list_all2_mono [OF updateArticle_keeps_publishedAt [of ?u exDb exEnv "''a1''" None]])
      (use u in blast)
  then have "map publishedAt (articles ?d') = [Some 10]"
    by (auto simp: old list_all2_Cons1)
  with st old show ?thesis
    by simp
qed

section \<open>publishedAt is set exactly for articles created or updated as published\<close>

lemma insertArticleRow_fresh:
  "insertArticleRow e v pub d = Inr (a, d1) \<Longrightarrow> art_id a \<notin> art_id ` set (articles d)"
  by (auto simp: insertArticleRow_def Let_def articleIds_def split: if_splits)

lemma articles_createArticle:
  "articles (snd (createArticle e v ts d)) =
     (case insertArticleRow e v
             (if ins_status v = Some ''published'' then Some (clock e) else None) d of
        Inl err \<Rightarrow> articles d
      | Inr (a, d1) \<Rightarrow> articles d @ [a])"
  by (auto simp: createArticle_def dest!: articles_insertArticleTags insertArticleRow_Inr
      split: sum.splits prod.splits option.splits if_splits)

lemma events_UpdateArticle:
  "events (UpdateArticle e j u ts) d =
     (if (\<exists>a \<in> set (articles d). art_id a = j) \<and> \<not> updateRejected u d
      then [Updated j (upd_status u)] else [])"
  by (auto simp: updateArticleRow_def Let_def filter_empty_conv)

lemma stampAgrees_same_articles:
  "articles d' = articles d \<Longrightarrow> stampAgrees d' acc i = stampAgrees d acc i"
  by (simp add: stampAgrees_def)

lemma stampAgrees_createArticle:
  assumes "stampAgrees d acc i"
  shows "stampAgrees (exec (CreateArticle e v ts) d)
           (publishCarried acc (events (CreateArticle e v ts) d) i) i"
proof (cases "insertArticleRow e v
             (if ins_status v = Some ''published'' then Some (clock e) else None) d")
  case (Inl err)
  with assms show ?thesis
    by (simp add: stampAgrees_def articles_createArticle)
next
  case (Inr p)
  obtain a d1 where p: "p = (a, d1)" by (cases p)
  note row = insertArticleRow_Inr [OF Inr [unfolded p]]
  have nin: "art_id a \<notin> art_id ` set (articles d)"
    by (rule insertArticleRow_fresh [OF Inr [unfolded p]])
  have fresh: "\<forall>b \<in> set (articles d). art_id b \<noteq> art_id a"
    using nin by (metis imageI)
  from row have pa: "publishedAt a \<noteq> None \<longleftrightarrow> ins_status v = Some ''published''"
    by (auto simp: newArticleRow_def)
  have arts: "articles (exec (CreateArticle e v ts) d) = articles d @ [a]"
    by (simp add: articles_createArticle Inr p)
  have evs: "events (CreateArticle e v ts) d = [Created (art_id a) (ins_status v)]"
    by (simp add: Inr p)
  show ?thesis
  proof (cases "art_id a = i")
    case True
    with fresh pa show ?thesis
      unfolding stampAgrees_def arts evs by auto
  next
    case False
    with assms show ?thesis
      unfolding stampAgrees_def arts evs by auto
  qed
qed

lemma stampAgrees_updateArticle:
  assumes "stampAgrees d acc i"
  shows "stampAgrees (exec (UpdateArticle e j u ts) d)
           (publishCarried acc (events (UpdateArticle e j u ts) d) i) i"
proof (cases "\<exists>a \<in> set (articles d). art_id a = j")
  case False
  then have "articles (exec (UpdateArticle e j u ts) d) = articles d"
    by (simp add: articles_updateArticle map_idI)
  with assms False show ?thesis
    by (simp add: stampAgrees_def events_UpdateArticle del: events.simps)
next
  case True
  show ?thesis
  proof (cases "updateRejected u d")
    case rej: True
    with True have "articles (exec (UpdateArticle e j u ts) d) = articles d"
      by (simp add: articles_updateArticle)
    with assms rej show ?thesis
      by (simp add: stampAgrees_def events_UpdateArticle del: events.simps)
  next
    case acc: False
    have arts: "articles (exec (UpdateArticle e j u ts) d) =
        map (\<lambda>a. if art_id a = j
                     then setArticle e u
                            (if upd_status u = Some ''published'' then Some (clock e) else None) a
                     else a) (articles d)"
      using acc by (simp add: articles_updateArticle)
    have evs: "events (UpdateArticle e j u ts) d = [Updated j (upd_status u)]"
      using True acc by (simp only: events_UpdateArticle) simp
    show ?thesis
      unfolding stampAgrees_def arts evs
    proof (intro ballI impI)
      fix a'
      assume mem: "a' \<in> set (map (\<lambda>a. if art_id a = j
                     then setArticle e u
                            (if upd_status u = Some ''published'' then Some (clock e) else None) a
                     else a) (articles d))"
        and id: "art_id a' = i"
      from mem obtain a where a: "a \<in> set (articles d)"
        and a': "a' = (if art_id a = j
                     then setArticle e u
                            (if upd_status u = Some ''published'' then Some (clock e) else None) a
                     else a)"
        by auto
      from a' id have ai: "art_id a = i"
        by (simp add: art_id_setArticle split: if_splits)
      with assms a have old: "publishedAt a \<noteq> None \<longleftrightarrow> acc"
        by (simp add: stampAgrees_def)
      show "(publishedAt a' \<noteq> None) = publishCarried acc [Updated j (upd_status u)] i"
        using a' ai old by (simp add: publishedAt_setArticle)
    qed
  qed
qed

lemma stampAgrees_exec:
  assumes "stampAgrees d acc i"
  shows "stampAgrees (exec op d) (publishCarried acc (events op d) i) i"
proof (cases op)
  case (CreateUser e v)
  with assms show ?thesis
    by (simp add: stampAgrees_def createUser_def Let_def)
next
  case (DeleteUser j)
  with assms show ?thesis
    by (simp add: stampAgrees_def deleteUser_def)
next
  case (CreateCategory e v)
  with assms show ?thesis
    by (simp add: stampAgrees_def createCategory_def Let_def)
next
  case (DeleteCategory j)
  with assms show ?thesis
    by (simp add: stampAgrees_def deleteCategory_def)
next
  case (CreateTag e v)
  with assms show ?thesis
    by (simp add: stampAgrees_def createTag_def Let_def)
next
  case (DeleteTag j)
  with assms show ?thesis
    by (simp add: stampAgrees_def deleteTag_def)
next
  case (CreateArticle e v ts)
  with assms show ?thesis
    by (simp only: stampAgrees_createArticle)
next
  case (UpdateArticle e j u ts)
  with assms show ?thesis
    by (simp only: stampAgrees_updateArticle)
next
  case (DeleteArticle j)
  with assms show ?thesis
    by (auto simp: stampAgrees_def deleteArticle_def)
next
  case (IncrementArticleViews j)
  with assms show ?thesis
    by (auto simp: stampAgrees_def incrementArticleViews_def)
qed

lemma publishCarried_append:
  "publishCarried acc (xs @ ys) i = publishCarried (publishCarried acc xs i) ys i"
  by (induction acc xs i rule: publishCarried.induct) simp_all

lemma stampAgrees_run:
  "stampAgrees d acc i \<Longrightarrow> stampAgrees (run ops d) (publishCarried acc (history ops d) i) i"
proof (induction ops arbitrary: d acc)
  case Nil
  then show ?case by simp
next
  case (Cons op ops)
  from Cons.IH [OF stampAgrees_exec [OF Cons.prems]]
  show ?case by (simp add: publishCarried_append)
qed


text \<open>
  Claim C5. After any sequence of storage calls on the empty store, an article in the
  table has a \<open>publishedAt\<close> if and only if it was created with \<open>status = "published"\<close>
  or, since its creation, updated with \<open>status = "published"\<close>. In particular a draft
  for which no create or update carried that status has \<open>publishedAt\<close> unset.
\<close>

theorem publishedAt_iff_publish_carried:
  assumes "a \<in> set (articles (run ops emptyDb))"
  shows "(publishedAt a \<noteq> None \<longleftrightarrow> publishCarried False (history ops emptyDb) (art_id a))
       \<and> (status a = ''draft'' \<and> \<not> publishCarried False (history ops emptyDb) (art_id a)
            \<longrightarrow> publishedAt a = None)"
proof -
  have "stampAgrees emptyDb False (art_id a)"
    by (simp add: stampAgrees_def emptyDb_def)
  from stampAgrees_run [OF this, of ops] assms
  show ?thesis by (auto simp: stampAgrees_def)
qed

text \<open>
  The example sequence ends with one article that is a draft again, was published by the
  update at time 60, and still carries that stamp.
\<close>

lemma ex_run_trace:
  "run exTrace emptyDb =
     \<lparr>users = [\<lparr>user_id = ''n'', username = ''alice'', password = ''#secret1'',
                 email = ''alice@x.com'', fullName = ''Alice A'', role = ''employee'',
                 user_createdAt = 51\<rparr>],
      categories = [], tags = [],
      articles = [\<lparr>art_id = ''n'', title = ''Hello'', content = ''World'', excerpt = None,
                    coverImage = None, status = ''draft'', categoryId = None,
                    authorId = ''n'', views = 0, createdAt = 51, updatedAt = 70,
                    publishedAt = Some 60\<rparr>],
      articleTags = []\<rparr>"
  by (simp add: exTrace_def emptyDb_def storage_defs ex_defs Let_def del: set_filter)

lemma ex_history_trace:
  "history exTrace emptyDb =
     [Created ''n'' (Some ''draft''), Updated ''n'' (Some ''published''),
      Updated ''n'' (Some ''draft'')]"
  by (simp add: exTrace_def emptyDb_def storage_defs ex_defs Let_def del: set_filter)


theorem publishedAt_iff_publish_carried_witness:
  "map status (articles (run exTrace emptyDb)) = [''draft'']
   \<and> map publishedAt (articles (run exTrace emptyDb)) = [Some 60]
   \<and> publishCarried False (history exTrace emptyDb) ''n''"
proof -
  let ?a = "\<lparr>art_id = ''n'', title = ''Hello'', content = ''World'', excerpt = None,
                    coverImage = None, status = ''draft'', categoryId = None,
                    authorId = ''n'', views = 0, createdAt = 51, updatedAt = 70,
                    publishedAt = Some 60\<rparr>"
  have mem: "?a \<in> set (articles (run exTrace emptyDb))"
    by (simp add: ex_run_trace)
  from publishedAt_iff_publish_carried [OF mem]
  have "publishCarried False (history exTrace emptyDb) ''n''"
    by simp
  then show ?thesis
    by (simp add: ex_run_trace)
qed

section \<open>Registration rejects a username that is taken\<close>

lemma zString_Nil: "zString key v check msg = [] \<Longrightarrow> \<exists>s. v = Some (JStr s)"
  by (auto simp: zString_def split: option.splits json.splits if_splits)

lemma insertUserSchema_parse_Inr:
  "insertUserSchema_parse e b = Inr data \<Longrightarrow>
     ub_username b = Some (JStr (iu_username data)) \<and> insertUserSchema_issues e b = []"
  by (auto simp: insertUserSchema_parse_def split: option.splits json.splits if_splits)

lemma insertUserSchema_parse_Inl:
  assumes "insertUserSchema_parse e b = Inl issues"
  shows "issues = insertUserSchema_issues e b \<and> insertUserSchema_issues e b \<noteq> []"
proof -
  have eq: "issues = insertUserSchema_issues e b"
    using assms
    by (auto simp: insertUserSchema_parse_def split: option.splits json.splits if_splits)
  have "insertUserSchema_issues e b \<noteq> []"
  proof
    assume nil: "insertUserSchema_issues e b = []"
    then obtain u p m f where "ub_username b = Some (JStr u)" "ub_password b = Some (JStr p)"
      "ub_email b = Some (JStr m)" "ub_fullName b = Some (JStr f)"
      unfolding insertUserSchema_issues_def append_is_Nil_conv
      by (blast dest: zString_Nil)
    with nil have "insertUserSchema_parse e b \<noteq> Inl issues"
      by (simp add: insertUserSchema_parse_def)
    with assms show False by simp
  qed
  with eq show ?thesis by simp
qed

lemma getUserByUsername_existing:
  "u \<in> set (users d) \<Longrightarrow> getUserByUsername (username u) d \<noteq> None"
proof -
  assume "u \<in> set (users d)"
  then have "filter (\<lambda>x. username x = username u) (users d) \<noteq> []"
    by (auto simp: filter_empty_conv)
  then show ?thesis
    by (simp add: getUserByUsername_def firstRow_def split: list.splits)
qed

text \<open>
  Claim C8. When a user with the requested username is already stored, \<open>register\<close>
  answers with status 400 and leaves the tables exactly as they were: \<open>createUser\<close> is
  not reached. For a body that passes the schema the answer is the error
  \<open>"Username already exists"\<close>; a body that fails the schema is answered with the
  validation error, also with status 400 and no insert.
\<close>

theorem register_duplicate_username:
  assumes u: "u \<in> set (users d)"
    and n: "ub_username body = Some (JStr (username u))"
  shows "snd (register e body d) = d
       \<and> statusCode (fst (register e body d)) = 400
       \<and> (insertUserSchema_issues e body = [] \<longrightarrow>
            fst (register e body d) = errorResponse 400 ''Username already exists'')"
proof (cases "insertUserSchema_parse e body")
  case (Inl issues)
  from insertUserSchema_parse_Inl [OF Inl] Inl show ?thesis
    by (simp add: register_def caught_def errorResponse_def)
next
  case (Inr data)
  from insertUserSchema_parse_Inr [OF Inr] n have "iu_username data = username u"
    by simp
  with getUserByUsername_existing [OF u] have "getUserByUsername (iu_username data) d \<noteq> None"
    by simp
  with Inr show ?thesis
    by (simp add: register_def errorResponse_def)
qed

text \<open>
  Registering \<open>bob\<close> on the example store succeeds and stores him; a second
  registration of \<open>bob\<close> with another email is refused and stores nothing.
\<close>

theorem register_duplicate_username_witness:
  "fst (register exEnv exBob exDb)
     = ok (Some (JObj [(''id'', JStr ''n''), (''username'', JStr ''bob''),
                       (''email'', JStr ''bob@x.com'')]))
   \<and> map username (users (snd (register exEnv exBob exDb))) = [''alice'', ''bob'']
   \<and> register exEnv (exBob\<lparr>ub_email := Some (JStr ''other@x.com'')\<rparr>)
         (snd (register exEnv exBob exDb))
       = (errorResponse 400 ''Username already exists'', snd (register exEnv exBob exDb))"
proof -
  let ?bob = "\<lparr>user_id = ''n'', username = ''bob'', password = ''#hunter22'',
      email = ''bob@x.com'', fullName = ''Bob B'', role = ''employee'', user_createdAt = 51\<rparr>"
  let ?d1 = "exDb\<lparr>users := [exAlice, ?bob]\<rparr>"
  let ?b2 = "exBob\<lparr>ub_email := Some (JStr ''other@x.com'')\<rparr>"
  have first: "register exEnv exBob exDb
      = (ok (Some (JObj [(''id'', JStr ''n''), (''username'', JStr ''bob''),
                         (''email'', JStr ''bob@x.com'')])), ?d1)"
    by (simp add: register_def route_defs storage_defs ex_defs Let_def del: set_filter)
  have mem: "?bob \<in> set (users ?d1)"
    by simp
  have name: "ub_username ?b2 = Some (JStr (username ?bob))"
    by (simp add: exBob_def)
  have valid: "insertUserSchema_issues exEnv ?b2 = []"
    by (simp add: insertUserSchema_issues_def zString_def zStringOptional_def exBob_def exEnv_def)
  from register_duplicate_username [OF mem name, of exEnv] valid
  have second: "register exEnv ?b2 ?d1 = (errorResponse 400 ''Username already exists'', ?d1)"
    by (simp add: prod_eq_iff)
  have names: "map username (users ?d1) = [''alice'', ''bob'']"
    by (simp add: exAlice_def)
  from second names show ?thesis
    by (simp add: first)
qed


section \<open>Validation of request bodies\<close>

text \<open>
  The handlers that call \<open>parse\<close> answer a body the schema rejects with status 400 and
  do not write to the tables.
\<close>

lemma statusCode_caught: "statusCode (caught e code t fallback) = code"
  by (simp add: caught_def errorResponse_def)


lemma register_invalid_rejected:
  "insertUserSchema_issues e body \<noteq> [] \<Longrightarrow>
     register e body d =
       (caught e 400 (ZodError (insertUserSchema_issues e body)) ''Registration failed'', d)"
  by (auto simp: register_def insertUserSchema_parse_def split: option.splits json.splits)

lemma postArticles_invalid_rejected:
  assumes "getUser uid d = Some user" and "uid \<noteq> []"
    and "insertArticleSchema_issues (body\<lparr>ab_authorId := Some (JStr (user_id user))\<rparr>) \<noteq> []"
  shows "postArticles e (Some uid) body d =
           (caught e 400
              (ZodError (insertArticleSchema_issues
                           (body\<lparr>ab_authorId := Some (JStr (user_id user))\<rparr>)))
              ''Failed to create article'', d)"
  using assms
  by (auto simp: postArticles_def requireAuth_def insertArticleSchema_parse_def
      split: option.splits json.splits)


text \<open>
  Claim C3, on the example store, for the body \<open>{ title: "", content: "x" }\<close> sent by
  the logged-in user: the article schema rejects it with the issue
  \<open>"Title is required"\<close>, and \<open>POST /api/articles\<close> answers 400 and stores nothing;
  \<open>PATCH /api/articles/a1\<close> does not parse the body, so the same body reaches
  \<open>updateArticle\<close>, the article is stored with an empty title and the answer is 200.
\<close>

theorem patchArticles_skips_validation:
  "insertArticleSchema_issues
       (exBody\<lparr>ab_title := Some (JStr []), ab_content := Some (JStr ''x''),
                ab_authorId := Some (JStr ''u1'')\<rparr>)
     = [\<lparr>issuePath = ''title'', issueMessage = ''Title is required''\<rparr>]
   \<and> postArticles exEnv (Some ''u1'')
         (exBody\<lparr>ab_title := Some (JStr []), ab_content := Some (JStr ''x'')\<rparr>) exDb
       = (caught exEnv 400
            (ZodError [\<lparr>issuePath = ''title'', issueMessage = ''Title is required''\<rparr>])
            ''Failed to create article'', exDb)
   \<and> statusCode (caught exEnv 400
            (ZodError [\<lparr>issuePath = ''title'', issueMessage = ''Title is required''\<rparr>])
            ''Failed to create article'') = 400
   \<and> patchArticles exEnv (Some ''u1'') ''a1''
         (exBody\<lparr>ab_title := Some (JStr []), ab_content := Some (JStr ''x'')\<rparr>) exDb
       = (ok (Some (articleJson (exHello\<lparr>title := [], content := ''x'', updatedAt := 50\<rparr>))),
          exDb\<lparr>articles := [exHello\<lparr>title := [], content := ''x'', updatedAt := 50\<rparr>]\<rparr>)"
proof -
  have 1: "insertArticleSchema_issues
       (exBody\<lparr>ab_title := Some (JStr []), ab_content := Some (JStr ''x''),
                ab_authorId := Some (JStr ''u1'')\<rparr>)
     = [\<lparr>issuePath = ''title'', issueMessage = ''Title is required''\<rparr>]"
    by (simp add: route_defs exBody_def)
  have 2: "postArticles exEnv (Some ''u1'')
         (exBody\<lparr>ab_title := Some (JStr []), ab_content := Some (JStr ''x'')\<rparr>) exDb
       = (caught exEnv 400
            (ZodError [\<lparr>issuePath = ''title'', issueMessage = ''Title is required''\<rparr>])
            ''Failed to create article'', exDb)"
    by (simp add: postArticles_def route_defs storage_defs exBody_def exDb_def exAlice_def
        Let_def del: set_filter)
  have 3: "patchArticles exEnv (Some ''u1'') ''a1''
         (exBody\<lparr>ab_title := Some (JStr []), ab_content := Some (JStr ''x'')\<rparr>) exDb
       = (ok (Some (articleJson (exHello\<lparr>title := [], content := ''x'', updatedAt := 50\<rparr>))),
          exDb\<lparr>articles := [exHello\<lparr>title := [], content := ''x'', updatedAt := 50\<rparr>]\<rparr>)"
    by (simp add: patchArticles_def route_defs any_defs storage_defs ex_defs Let_def
        del: set_filter)
  from 1 2 3 statusCode_caught show ?thesis by blast
qed

section \<open>Passwords in responses\<close>

text \<open>
  \<open>GET /api/employees\<close> removes the \<open>password\<close> key from every user it sends, for
  every store and session.
\<close>

lemma hasKeyFields_iff:
  "hasKeyFields k fs \<longleftrightarrow> (\<exists>f \<in> set fs. fst f = k \<or> hasKey k (snd f))"
  by (induction fs) auto

lemma hasKeyAny_iff:
  "hasKeyAny k xs \<longleftrightarrow> (\<exists>x \<in> set xs. hasKey k x)"
  by (induction xs) auto

lemma sanitized_has_no_password:
  "\<not> hasKey ''password'' (withoutPassword (userJson u))"
  by (simp add: withoutPassword_def userJson_def JDate_def)

lemma getEmployees_no_password:
  "respBody (fst (getEmployees s d)) = Some j \<Longrightarrow> \<not> hasKey ''password'' j"
  by (auto simp: getEmployees_def requireAuth_def errorResponse_def ok_def Let_def hasKeyAny_iff
        sanitized_has_no_password split: option.splits if_splits)

text \<open>
  Claim C4, on the example store: \<open>GET /api/articles\<close> sends the result of
  \<open>getAllArticles\<close> as it is, and the \<open>author\<close> of the article is the whole user row,
  so the response holds a \<open>password\<close> key, with the stored hash of the author.
\<close>

theorem getArticles_sends_password:
  "getArticles (Some ''u1'') exDb
     = (ok (Some (JArr [articleWithRelationsJson
                          \<lparr>row = exHello, author = Some exAlice, category = Some exGuides,
                            articleTagsOf =
                              [\<lparr>link = \<lparr>at_id = ''l1'', at_articleId = ''a1'', at_tagId = ''t1''\<rparr>,
                                linkTag = Some exIntro\<rparr>],
                            tagsOf = [Some exIntro]\<rparr>])), exDb)
   \<and> hasKey ''password''
        (JArr [articleWithRelationsJson
                 \<lparr>row = exHello, author = Some exAlice, category = Some exGuides,
                   articleTagsOf =
                     [\<lparr>link = \<lparr>at_id = ''l1'', at_articleId = ''a1'', at_tagId = ''t1''\<rparr>,
                       linkTag = Some exIntro\<rparr>],
                   tagsOf = [Some exIntro]\<rparr>])
   \<and> nullable userJson (Some exAlice)
       = JObj [(''id'', JStr ''u1''), (''username'', JStr ''alice''),
               (''password'', JStr ''#secret1''), (''email'', JStr ''alice@x.com''),
               (''fullName'', JStr ''Alice A''), (''role'', JStr ''employee''),
               (''createdAt'', JNum 1)]"
proof -
  have 1: "getArticles (Some ''u1'') exDb
     = (ok (Some (JArr [articleWithRelationsJson
                          \<lparr>row = exHello, author = Some exAlice, category = Some exGuides,
                            articleTagsOf =
                              [\<lparr>link = \<lparr>at_id = ''l1'', at_articleId = ''a1'', at_tagId = ''t1''\<rparr>,
                                linkTag = Some exIntro\<rparr>],
                            tagsOf = [Some exIntro]\<rparr>])), exDb)"
    by (simp add: getArticles_def requireAuth_def getAllArticles_def withRelations_def withTag_def
        firstRow_def exDb_def exHello_def exAlice_def exGuides_def exIntro_def exTutorial_def Let_def)
  have 2: "hasKey ''password''
        (JArr [articleWithRelationsJson
                 \<lparr>row = exHello, author = Some exAlice, category = Some exGuides,
                   articleTagsOf =
                     [\<lparr>link = \<lparr>at_id = ''l1'', at_articleId = ''a1'', at_tagId = ''t1''\<rparr>,
                       linkTag = Some exIntro\<rparr>],
                   tagsOf = [Some exIntro]\<rparr>])"
    by (simp add: articleWithRelationsJson_def articleFields_def nullable_def userJson_def)
  have 3: "nullable userJson (Some exAlice)
       = JObj [(''id'', JStr ''u1''), (''username'', JStr ''alice''),
               (''password'', JStr ''#secret1''), (''email'', JStr ''alice@x.com''),
               (''fullName'', JStr ''Alice A''), (''role'', JStr ''employee''),
               (''createdAt'', JNum 1)]"
    by (simp add: nullable_def userJson_def JDate_def exAlice_def)
  from 1 2 3 show ?thesis by blast
qed

section \<open>The methods on the declared types and on the values the handlers pass\<close>

text \<open>
  On an object that has only keys of the declared type, with values of the declared
  kinds, and on a \<open>tagIds\<close> that is absent or an array of strings, the two embeddings of
  \<open>createArticle\<close> and of \<open>updateArticle\<close> do the same.
\<close>

lemma those_map_Some: "those (map Some ts) = Some ts"
  by (induction ts) simp_all

lemma those_length: "those xs = Some ys \<Longrightarrow> length ys = length xs"
  by (induction xs arbitrary: ys) (auto split: option.splits)

lemma lengthPositive_strings: "lengthPositive e (JArr (map JStr ts)) = Inr (ts \<noteq> [])"
  by (simp add: lengthPositive_def)

lemma insertTagsOf_strings:
  "insertTagsOf e k a (JArr (map JStr ts)) d =
     (case insertArticleTags e k (map (\<lambda>tagId. (a, tagId)) ts) d of
        Inl err \<Rightarrow> Inl (StoreError err)
      | Inr d' \<Rightarrow> Inr d')"
proof -
  have "map (textParam e) (map JStr ts) = map Some ts"
    by (simp add: textParam_def)
  then show ?thesis
    by (simp add: insertTagsOf_def tagRows_def insertArticleTagsAny_def those_map_Some
        del: map_map)
qed

lemma createArticleAny_tagIdsJson:
  "createArticleAny e v (tagIdsJson tagIds) d =
     (case createArticle e v tagIds d of
        (Inl err, d') \<Rightarrow> (Inl (StoreError err), d')
      | (Inr a, d') \<Rightarrow> (Inr a, d'))"
proof -
  let ?pub = "if ins_status v = Some ''published'' then Some (clock e) else None"
  show ?thesis
  proof (cases "insertArticleRow e v ?pub d")
    case (Inl err)
    then show ?thesis
      by (simp add: createArticleAny_def createArticle_def)
  next
    case (Inr p)
    obtain a d1 where p: "p = (a, d1)"
      by (cases p)
    show ?thesis
    proof (cases tagIds)
      case None
      with Inr p show ?thesis
        by (simp add: createArticleAny_def createArticle_def tagIdsJson_def)
    next
      case (Some ts)
      show ?thesis
      proof (cases "ts = []")
        case True
        with Some Inr p show ?thesis
          by (simp add: createArticleAny_def createArticle_def tagIdsJson_def truthy_def
              lengthPositive_def)
      next
        case False
        with Some Inr p show ?thesis
          by (simp add: createArticleAny_def createArticle_def tagIdsJson_def truthy_def
              lengthPositive_strings insertTagsOf_strings split: sum.splits)
      qed
    qed
  qed
qed

lemma textColumn_JStr: "textColumn e (map_option JStr v) = map_option Some v"
  by (cases v) (simp_all add: textColumn_def textParam_def)

lemma textColumn_nullishJson: "textColumn e (nullishJson v) = v"
  by (cases v) (auto simp: textColumn_def textParam_def nullishJson_def split: option.splits)

lemma assign_Some: "assign (map_option Some v) old = setOr v old"
  by (cases v) (simp_all add: assign_def setOr_def)

lemma setArticleAny_asObject:
  "setArticleAny e (asObject u) None pub a = setArticle e u pub a"
  by (simp add: setArticleAny_def setArticle_def asObject_def textColumn_JStr
      textColumn_nullishJson assign_Some) (simp add: assign_def textColumn_def)

lemma nullGiven_asObject: "\<not> nullGiven (asObject u)"
  by (auto simp: nullGiven_def asObject_def map_option_case split: option.splits)

lemma setRejected_asObject:
  "setRejected e i (asObject u) d = (if updateRejected u d then Some ForeignKeyViolation else None)"
proof -
  have i: "textColumn e (ab_id (asObject u)) = None"
    by (simp add: asObject_def textColumn_def)
  have a: "textColumn e (ab_authorId (asObject u)) = map_option Some (upd_authorId u)"
    and c: "textColumn e (ab_categoryId (asObject u)) = upd_categoryId u"
    by (simp_all add: asObject_def textColumn_JStr textColumn_nullishJson)
  show ?thesis
    unfolding setRejected_def i a c
    by (cases "upd_authorId u"; cases "upd_categoryId u")
      (simp_all add: updateRejected_def nullGiven_asObject)
qed

lemma updateArticleRowAny_asObject:
  "updateArticleRowAny e i (asObject u) pub d =
     (case updateArticleRow e i u pub d of
        Inl err \<Rightarrow> Inl (StoreError err)
      | Inr r \<Rightarrow> Inr r)"
proof -
  have b: "\<not> builderThrows (asObject u)" and v: "intColumn e (ab_views (asObject u)) = Inr None"
    by (simp_all add: builderThrows_def intColumn_def asObject_def)
  show ?thesis
    by (simp add: updateArticleRowAny_def updateArticleRow_def b v Let_def
        setRejected_asObject setArticleAny_asObject)
qed

lemma updateArticleAny_asObject:
  "updateArticleAny e i (asObject u) (tagIdsJson tagIds) d =
     (case updateArticle e i u tagIds d of
        (Inl err, d') \<Rightarrow> (Inl (StoreError err), d')
      | (Inr a, d') \<Rightarrow> (Inr a, d'))"
proof -
  have s: "(ab_status (asObject u) = Some (JStr ''published'')) = (upd_status u = Some ''published'')"
    by (cases "upd_status u") (simp_all add: asObject_def)
  let ?pub = "if upd_status u = Some ''published'' then Some (clock e) else None"
  show ?thesis
  proof (cases "updateArticleRow e i u ?pub d")
    case (Inl err)
    then show ?thesis
      by (simp add: updateArticleAny_def updateArticle_def updateArticleRowAny_asObject s)
  next
    case (Inr p)
    obtain rows d1 where p: "p = (rows, d1)"
      by (cases p)
    show ?thesis
    proof (cases tagIds)
      case None
      with Inr p show ?thesis
        by (simp add: updateArticleAny_def updateArticle_def updateArticleRowAny_asObject s
            tagIdsJson_def)
    next
      case (Some ts)
      show ?thesis
      proof (cases "ts = []")
        case True
        with Some Inr p show ?thesis
          by (simp add: updateArticleAny_def updateArticle_def updateArticleRowAny_asObject s
              tagIdsJson_def lengthPositive_def)
      next
        case False
        with Some Inr p show ?thesis
          by (simp add: updateArticleAny_def updateArticle_def updateArticleRowAny_asObject s
              tagIdsJson_def lengthPositive_strings insertTagsOf_strings Let_def
              split: sum.splits)
      qed
    qed
  qed
qed

section \<open>Updating an article that does not exist\<close>

lemma updateArticleRow_no_match:
  assumes "i \<notin> set (articleIds d)"
  shows "updateArticleRow e i u pub d = Inr ([], d)"
proof -
  from assms have none: "\<forall>a \<in> set (articles d). art_id a \<noteq> i"
    by (auto simp: articleIds_def)
  then have "filter (\<lambda>a. art_id a = i) (articles d) = []"
    by (simp add: filter_empty_conv)
  moreover from none
  have "map (\<lambda>a. if art_id a = i then setArticle e u pub a else a) (articles d) = articles d"
    by (simp add: map_idI)
  ultimately show ?thesis
    by (simp add: updateArticleRow_def)
qed

lemma updateArticleRowAny_no_match:
  assumes "i \<notin> set (articleIds d)"
  shows "updateArticleRowAny e i b pub d =
           (if builderThrows b then Inl TypeError
            else case intColumn e (ab_views b) of
                   Inl err \<Rightarrow> Inl (StoreError err)
                 | Inr vw \<Rightarrow> Inr ([], d))"
proof -
  from assms have none: "\<forall>a \<in> set (articles d). art_id a \<noteq> i"
    by (auto simp: articleIds_def)
  then have f: "filter (\<lambda>a. art_id a = i) (articles d) = []"
    by (simp add: filter_empty_conv)
  from none have m: "map (\<lambda>a. if art_id a = i then g a else a) (articles d) = articles d" for g
    by (simp add: map_idI)
  show ?thesis
    by (simp add: updateArticleRowAny_def f m Let_def split: sum.splits)
qed

lemma insertArticleTags_no_article:
  assumes "i \<notin> set (articleIds d)" and "ts \<noteq> []"
  shows "\<exists>err. insertArticleTags e k (map (\<lambda>tagId. (i, tagId)) ts) d = Inl err"
  using assms by (simp add: insertArticleTags_outcome linksRejected_def)

lemma insertTagsOf_no_article:
  assumes "i \<notin> set (articleIds d)" and "lengthPositive e j = Inr True"
  shows "\<exists>t. insertTagsOf e k i j d = Inl t"
proof (cases "tagRows e j")
  case (Inl t)
  then show ?thesis
    by (simp add: insertTagsOf_def)
next
  case (Inr vals)
  then obtain xs where j: "j = JArr xs" and vals: "vals = map (textParam e) xs"
    by (auto simp: tagRows_def split: json.splits)
  from assms(2) j have ne: "xs \<noteq> []"
    by (simp add: lengthPositive_def)
  show ?thesis
  proof (cases "those vals")
    case None
    with Inr show ?thesis
      by (simp add: insertTagsOf_def insertArticleTagsAny_def)
  next
    case (Some ts)
    from those_length [OF Some] vals ne have "ts \<noteq> []"
      by auto
    from insertArticleTags_no_article [OF assms(1) this] obtain err
      where "insertArticleTags e k (map (\<lambda>tagId. (i, tagId)) ts) d = Inl err"
      by blast
    with Inr Some show ?thesis
      by (simp add: insertTagsOf_def insertArticleTagsAny_def)
  qed
qed

text \<open>
  Claim C10, as the code has it. For an id that matches no article, \<open>updateArticle\<close>
  never reports a missing article. With \<open>tagIds\<close> omitted it changes nothing and returns
  \<open>undefined\<close>; with \<open>tagIds\<close> empty it deletes the link rows stored under the id and
  returns \<open>undefined\<close>; with \<open>tagIds\<close> non-empty it deletes those rows and then throws,
  because the insert of the new links is rejected (the article they point at does not
  exist), so no link is stored. The \<open>PATCH\<close> handler of a logged-in user passes the whole
  body on, unchecked. When the body carries a \<open>createdAt\<close> other than \<open>null\<close>, or a \<open>views\<close>
  the database cannot take as an \<open>integer\<close>, the first statement throws, nothing is
  changed and the answer is 400. Otherwise the answer is 200 with an empty body when the
  body has no \<open>tagIds\<close>, and when its \<open>tagIds\<close> has no positive \<open>length\<close> (an empty array, an
  empty string, a number, a boolean, an object without one); it is 400 for every other
  \<open>tagIds\<close> (a non-empty array, \<open>null\<close>, a non-empty string); and whenever the body has
  \<open>tagIds\<close> the link rows stored under the id are deleted first. It is never 404.
\<close>

theorem updateArticle_missing_article:
  assumes missing: "i \<notin> set (articleIds d)"
  shows "updateArticle e i u None d = (Inr None, d)
       \<and> updateArticle e i u (Some []) d = (Inr None, deleteArticleTagsOf i d)
       \<and> (ts \<noteq> [] \<longrightarrow>
            (\<exists>err. updateArticle e i u (Some ts) d = (Inl err, deleteArticleTagsOf i d)))
       \<and> (uid \<noteq> [] \<longrightarrow>
            statusCode (fst (patchArticles e (Some uid) i body d))
              = (if builderThrows body \<or> (\<exists>err. intColumn e (ab_views body) = Inl err) then 400
                 else if ab_tagIds body = None
                         \<or> (\<exists>j. ab_tagIds body = Some j \<and> lengthPositive e j = Inr False)
                 then 200
                 else 400)
            \<and> (statusCode (fst (patchArticles e (Some uid) i body d)) = 200 \<longrightarrow>
                 respBody (fst (patchArticles e (Some uid) i body d)) = None)
            \<and> snd (patchArticles e (Some uid) i body d)
                = (if builderThrows body \<or> (\<exists>err. intColumn e (ab_views body) = Inl err)
                      \<or> ab_tagIds body = None
                   then d else deleteArticleTagsOf i d))"
proof -
  note row = updateArticleRow_no_match [OF missing]
  have 1: "updateArticle e i u None d = (Inr None, d)"
    by (simp add: updateArticle_def row)
  have 2: "updateArticle e i u (Some []) d = (Inr None, deleteArticleTagsOf i d)"
    by (simp add: updateArticle_def row)
  have missing': "i \<notin> set (articleIds (deleteArticleTagsOf i d))"
    using missing by (simp add: articleIds_def deleteArticleTagsOf_def)
  have 3: "\<exists>err. updateArticle e i u (Some ts) d = (Inl err, deleteArticleTagsOf i d)"
    if "ts \<noteq> []"
  proof -
    from insertArticleTags_no_article [OF missing' that] obtain err
      where "insertArticleTags e 0 (map (\<lambda>tagId. (i, tagId)) ts) (deleteArticleTagsOf i d) = Inl err"
      by blast
    with that show ?thesis
      by (simp add: updateArticle_def row)
  qed
  let ?P = "patchArticles e (Some uid) i body d"
  let ?early = "builderThrows body \<or> (\<exists>err. intColumn e (ab_views body) = Inl err)"
  let ?quiet = "ab_tagIds body = None
                  \<or> (\<exists>j. ab_tagIds body = Some j \<and> lengthPositive e j = Inr False)"
  have b: "builderThrows (articleData body) = builderThrows body"
    and v: "ab_views (articleData body) = ab_views body"
    by (simp_all add: articleData_def builderThrows_def)
  note rowAny = updateArticleRowAny_no_match [OF missing, of e "articleData body", unfolded b v]
  have 4: "statusCode (fst ?P) = (if ?early then 400 else if ?quiet then 200 else 400)
            \<and> (statusCode (fst ?P) = 200 \<longrightarrow> respBody (fst ?P) = None)
            \<and> snd ?P = (if builderThrows body \<or> (\<exists>err. intColumn e (ab_views body) = Inl err)
                            \<or> ab_tagIds body = None
                         then d else deleteArticleTagsOf i d)"
    if uid: "uid \<noteq> []"
  proof (cases "builderThrows body")
    case True
    with uid show ?thesis
      by (simp add: patchArticles_def requireAuth_def updateArticleAny_def rowAny
          statusCode_caught)
  next
    case nb: False
    show ?thesis
    proof (cases "intColumn e (ab_views body)")
      case (Inl err)
      with uid nb show ?thesis
        by (simp add: patchArticles_def requireAuth_def updateArticleAny_def rowAny
            statusCode_caught)
    next
      case (Inr vw)
      show ?thesis
      proof (cases "ab_tagIds body")
        case None
        with uid nb Inr show ?thesis
          by (simp add: patchArticles_def requireAuth_def updateArticleAny_def rowAny ok_def)
      next
        case (Some j)
        show ?thesis
        proof (cases "lengthPositive e j")
          case (Inl t)
          with Some uid nb Inr show ?thesis
            by (simp add: patchArticles_def requireAuth_def updateArticleAny_def rowAny
                statusCode_caught)
        next
          case pos: (Inr positive)
          show ?thesis
          proof (cases positive)
            case False
            with pos Some uid nb Inr show ?thesis
              by (simp add: patchArticles_def requireAuth_def updateArticleAny_def rowAny ok_def)
          next
            case True
            with pos have "lengthPositive e j = Inr True"
              by simp
            from insertTagsOf_no_article [OF missing' this] obtain t
              where "insertTagsOf e 0 i j (deleteArticleTagsOf i d) = Inl t"
              by blast
            with True pos Some uid nb Inr show ?thesis
              by (simp add: patchArticles_def requireAuth_def updateArticleAny_def rowAny
                  statusCode_caught)
          qed
        qed
      qed
    qed
  qed
  have c3: "ts \<noteq> [] \<longrightarrow>
      (\<exists>err. updateArticle e i u (Some ts) d = (Inl err, deleteArticleTagsOf i d))"
    using 3 by blast
  have c4: "uid \<noteq> [] \<longrightarrow>
            statusCode (fst ?P) = (if ?early then 400 else if ?quiet then 200 else 400)
            \<and> (statusCode (fst ?P) = 200 \<longrightarrow> respBody (fst ?P) = None)
            \<and> snd ?P = (if builderThrows body \<or> (\<exists>err. intColumn e (ab_views body) = Inl err)
                            \<or> ab_tagIds body = None
                         then d else deleteArticleTagsOf i d)"
    using 4 by (intro impI)
  from 1 2 c3 c4 show ?thesis
    by - (intro conjI; assumption)
qed

text \<open>
  Claim C10, as stated, at a concrete request: no article has the id \<open>zz\<close>, and a
  \<open>PATCH\<close> of \<open>zz\<close> with \<open>tagIds = ["t1"]\<close> is answered with status 400, not with success.
\<close>

theorem patchArticles_missing_article_counterexample:
  "''zz'' \<notin> set (articleIds exDb)
   \<and> patchArticles exEnv (Some ''u1'') ''zz'' (exBody\<lparr>ab_tagIds := Some (JArr [JStr ''t1''])\<rparr>) exDb
       = (caught exEnv 400 (StoreError ForeignKeyViolation) ''Failed to update article'', exDb)
   \<and> statusCode (caught exEnv 400 (StoreError ForeignKeyViolation) ''Failed to update article'')
       = 400"
  by (simp add: patchArticles_def route_defs any_defs storage_defs ex_defs statusCode_caught
      Let_def del: set_filter)

text \<open>
  On the example store the id \<open>zz\<close> is unused: the empty body is answered with 200 and
  no content, a body with a tag id with 400, a body whose \<open>tagIds\<close> is \<open>null\<close> with 400,
  and a body with a \<open>createdAt\<close> with 400.
\<close>

theorem updateArticle_missing_article_witness:
  "''zz'' \<notin> set (articleIds exDb)
   \<and> updateArticle exEnv ''zz'' noChange None exDb = (Inr None, exDb)
   \<and> statusCode (fst (patchArticles exEnv (Some ''u1'') ''zz'' exBody exDb)) = 200
   \<and> respBody (fst (patchArticles exEnv (Some ''u1'') ''zz'' exBody exDb)) = None
   \<and> statusCode (fst (patchArticles exEnv (Some ''u1'') ''zz''
                         (exBody\<lparr>ab_tagIds := Some (JArr [JStr ''t1''])\<rparr>) exDb)) = 400
   \<and> statusCode (fst (patchArticles exEnv (Some ''u1'') ''zz''
                         (exBody\<lparr>ab_tagIds := Some JNull\<rparr>) exDb)) = 400
   \<and> statusCode (fst (patchArticles exEnv (Some ''u1'') ''zz''
                         (exBody\<lparr>ab_createdAt := Some (JStr ''2024-01-01'')\<rparr>) exDb)) = 400"
proof -
  let ?tag = "exBody\<lparr>ab_tagIds := Some (JArr [JStr ''t1''])\<rparr>"
  let ?null = "exBody\<lparr>ab_tagIds := Some JNull\<rparr>"
  let ?created = "exBody\<lparr>ab_createdAt := Some (JStr ''2024-01-01'')\<rparr>"
  have missing: "''zz'' \<notin> set (articleIds exDb)"
    by (simp add: articleIds_def ex_defs)
  have uid: "''u1'' \<noteq> []"
    by simp
  have e0: "\<not> (builderThrows exBody \<or> (\<exists>err. intColumn exEnv (ab_views exBody) = Inl err))"
    and e1: "\<not> (builderThrows ?tag \<or> (\<exists>err. intColumn exEnv (ab_views ?tag) = Inl err))"
    and e2: "\<not> (builderThrows ?null \<or> (\<exists>err. intColumn exEnv (ab_views ?null) = Inl err))"
    and e3: "builderThrows ?created \<or> (\<exists>err. intColumn exEnv (ab_views ?created) = Inl err)"
    by (simp_all add: builderThrows_def intColumn_def exBody_def)
  have t0: "ab_tagIds exBody = None
              \<or> (\<exists>j. ab_tagIds exBody = Some j \<and> lengthPositive exEnv j = Inr False)"
    and t1: "\<not> (ab_tagIds ?tag = None
                  \<or> (\<exists>j. ab_tagIds ?tag = Some j \<and> lengthPositive exEnv j = Inr False))"
    and t2: "\<not> (ab_tagIds ?null = None
                  \<or> (\<exists>j. ab_tagIds ?null = Some j \<and> lengthPositive exEnv j = Inr False))"
    by (simp_all add: exBody_def lengthPositive_def)
  note a = updateArticle_missing_article [OF missing, of exEnv noChange "[]" "''u1''" exBody]
  note b = updateArticle_missing_article [OF missing, of exEnv noChange "[]" "''u1''" ?tag]
  note n = updateArticle_missing_article [OF missing, of exEnv noChange "[]" "''u1''" ?null]
  note c = updateArticle_missing_article [OF missing, of exEnv noChange "[]" "''u1''" ?created]
  note a4 = a [THEN conjunct2, THEN conjunct2, THEN conjunct2, THEN mp, OF uid,
      unfolded if_not_P [OF e0] if_P [OF t0]]
  note b4 = b [THEN conjunct2, THEN conjunct2, THEN conjunct2, THEN mp, OF uid,
      unfolded if_not_P [OF e1] if_not_P [OF t1]]
  note n4 = n [THEN conjunct2, THEN conjunct2, THEN conjunct2, THEN mp, OF uid,
      unfolded if_not_P [OF e2] if_not_P [OF t2]]
  note c4 = c [THEN conjunct2, THEN conjunct2, THEN conjunct2, THEN mp, OF uid,
      unfolded if_P [OF e3]]
  note a1 = a [THEN conjunct1]
  note a2 = a4 [THEN conjunct1]
  note a3 = a4 [THEN conjunct2, THEN conjunct1, THEN mp, OF a2]
  note b1 = b4 [THEN conjunct1]
  note n1 = n4 [THEN conjunct1]
  note c1 = c4 [THEN conjunct1]
  from missing a1 a2 a3 b1 n1 c1 show ?thesis
    by - (intro conjI; assumption)
qed


end
